theory Spec2Isabelle
  imports Complex_Main "HOL-Library.Char_ord" "HOL-Library.List_Lexorder" "HOL-Library.Product_Lexorder"
begin


section \<open>ReefGuard: data model (core/models.py)\<close>

text \<open>
  Primary keys are the automatic integer ids of the tables. A DateTimeField is carried as
  a number of seconds, a DateField as (year, month, day) under the lexicographic order.
  A FloatField is only ever compared here, and is carried as a rational number.
\<close>

type_synonym pk = nat
type_synonym datetime = int
type_synonym date = "int \<times> nat \<times> nat"

record Reef =
  Reef_id :: pk
  Reef_name :: string
  Reef_region :: string
  Reef_country :: string
  Reef_latitude :: rat
  Reef_longitude :: rat
  Reef_description :: string
  Reef_area_km2 :: rat
  Reef_depth_meters :: rat
  Reef_health_status :: string
  Reef_created_at :: datetime
  Reef_updated_at :: datetime
  Reef_created_by :: "pk option"

record ReefBookmark =
  ReefBookmark_id :: pk
  ReefBookmark_user :: pk
  ReefBookmark_reef :: pk
  ReefBookmark_created_at :: datetime
  ReefBookmark_notes :: string

record Event =
  Event_id :: pk
  Event_reef :: pk
  Event_event_type :: string
  Event_title :: string
  Event_description :: string
  Event_severity :: string
  Event_event_date :: date
  Event_reported_by :: "pk option"
  Event_created_at :: datetime
  Event_updated_at :: datetime
  Event_resolved :: bool
  Event_notes :: string

record Article =
  Article_id :: pk
  Article_title :: string
  Article_slug :: string
  Article_category :: string
  Article_content :: string
  Article_excerpt :: string
  Article_author :: "pk option"
  Article_published :: bool
  Article_featured :: bool
  Article_created_at :: datetime
  Article_updated_at :: datetime

record ImageGallery =
  ImageGallery_id :: pk
  ImageGallery_reef :: "pk option"
  ImageGallery_event :: "pk option"
  ImageGallery_media_type :: string
  ImageGallery_title :: string
  ImageGallery_description :: string
  ImageGallery_file :: string
  ImageGallery_uploaded_by :: "pk option"
  ImageGallery_uploaded_at :: datetime


section \<open>Bookmark toggle (core/views.py, bookmark_toggle)\<close>

text \<open>
  The part of the database that the toggle endpoint reads and writes: the reef table,
  the bookmark table with the next id of its sequence, and the messages queued for the
  user by \<open>messages.success\<close>.
\<close>

record toggle_state =
  reefs :: "Reef list"
  bookmarks :: "ReefBookmark list"
  next_bookmark_id :: pk
  flash :: "string list"

datatype json = JBool bool | JStr string

text \<open>
  An exception that leaves a view is an answer of its own: \<open>Http404\<close> becomes the
  not-found page, any other one a server error.
\<close>

datatype error = Http404 | MultipleObjectsReturned | FieldError | ValueError

datatype response =
    JsonResponse nat "(string \<times> json) list"
  | Raised error

text \<open>\<open>get_object_or_404(Reef, pk=reef_id)\<close>: the row with that key, or the 404 answer.\<close>

definition get_object_or_404 :: "Reef list \<Rightarrow> pk \<Rightarrow> Reef option" where
  "get_object_or_404 rs reef_id = find (\<lambda>r. Reef_id r = reef_id) rs"

text \<open>
  \<open>ReefBookmark.objects.get_or_create(user=u, reef=r)\<close>: \<open>get\<close> selects the rows of the
  pair; none means a new row is inserted (fresh id, \<open>created_at\<close> set by
  \<open>auto_now_add\<close>, \<open>notes\<close> blank), one is returned as it is, more than one raises
  \<open>MultipleObjectsReturned\<close>.
\<close>

definition bookmark_of :: "pk \<Rightarrow> pk \<Rightarrow> ReefBookmark \<Rightarrow> bool" where
  "bookmark_of u r b = (ReefBookmark_user b = u \<and> ReefBookmark_reef b = r)"

definition get_or_create ::
  "toggle_state \<Rightarrow> pk \<Rightarrow> pk \<Rightarrow> datetime \<Rightarrow> (toggle_state \<times> ReefBookmark \<times> bool) option" where
  "get_or_create s u r now =
     (case filter (bookmark_of u r) (bookmarks s) of
        [] \<Rightarrow>
          (let b = \<lparr>ReefBookmark_id = next_bookmark_id s, ReefBookmark_user = u,
                    ReefBookmark_reef = r, ReefBookmark_created_at = now,
                    ReefBookmark_notes = []\<rparr>
           in Some (s\<lparr>bookmarks := bookmarks s @ [b],
                      next_bookmark_id := Suc (next_bookmark_id s)\<rparr>, b, True))
      | [b] \<Rightarrow> Some (s, b, False)
      | _ \<Rightarrow> None)"

text \<open>\<open>bookmark.delete()\<close> deletes the row with the bookmark's primary key.\<close>

definition delete_bookmark :: "ReefBookmark \<Rightarrow> toggle_state \<Rightarrow> toggle_state" where
  "delete_bookmark b s =
     s\<lparr>bookmarks := filter (\<lambda>x. ReefBookmark_id x \<noteq> ReefBookmark_id b) (bookmarks s)\<rparr>"

text \<open>
  The view. \<open>user\<close> is \<open>request.user\<close>: \<open>None\<close> is the anonymous user, for which
  \<open>is_authenticated\<close> is false. \<open>now\<close> is the clock read by \<open>auto_now_add\<close>.
\<close>

definition bookmark_toggle ::
  "toggle_state \<Rightarrow> pk option \<Rightarrow> pk \<Rightarrow> datetime \<Rightarrow> toggle_state \<times> response" where
  "bookmark_toggle s user reef_id now =
     (case user of
        None \<Rightarrow> (s, JsonResponse 401 [(''error'', JStr ''Authentication required'')])
      | Some u \<Rightarrow>
          (case get_object_or_404 (reefs s) reef_id of
             None \<Rightarrow> (s, Raised Http404)
           | Some reef \<Rightarrow>
               (case get_or_create s u (Reef_id reef) now of
                  None \<Rightarrow> (s, Raised MultipleObjectsReturned)
                | Some (s1, bookmark, created) \<Rightarrow>
                    (let (s2, bookmarked, message) =
                           (if \<not> created
                            then (delete_bookmark bookmark s1, False,
                                  ''Removed '' @ Reef_name reef @ '' from bookmarks'')
                            else (s1, True,
                                  ''Added '' @ Reef_name reef @ '' to bookmarks''))
                     in (s2\<lparr>flash := flash s2 @ [message]\<rparr>,
                         JsonResponse 200
                           [(''bookmarked'', JBool bookmarked), (''message'', JStr message)])))))"

text \<open>A session of toggle requests, each with its user, reef id and clock.\<close>

fun toggles :: "toggle_state \<Rightarrow> (pk option \<times> pk \<times> datetime) list \<Rightarrow> toggle_state" where
  "toggles s [] = s"
| "toggles s ((user, reef_id, now) # reqs) =
     toggles (fst (bookmark_toggle s user reef_id now)) reqs"

text \<open>
  What the schema guarantees of the bookmark table: primary keys are unique and below the
  sequence's next value, and \<open>unique_together = ['user', 'reef']\<close>.
\<close>

definition unique_together :: "ReefBookmark list \<Rightarrow> bool" where
  "unique_together bs = distinct (map (\<lambda>b. (ReefBookmark_user b, ReefBookmark_reef b)) bs)"

definition bookmarks_ok :: "toggle_state \<Rightarrow> bool" where
  "bookmarks_ok s =
     (distinct (map ReefBookmark_id (bookmarks s)) \<and>
      list_all (\<lambda>b. ReefBookmark_id b < next_bookmark_id s) (bookmarks s) \<and>
      unique_together (bookmarks s))"

definition bookmarked_pairs :: "toggle_state \<Rightarrow> (pk \<times> pk) set" where
  "bookmarked_pairs s = set (map (\<lambda>b. (ReefBookmark_user b, ReefBookmark_reef b)) (bookmarks s))"

text \<open>The two toggles of one user on one reef, one after the other.\<close>

definition toggle_twice :: "toggle_state \<Rightarrow> pk \<Rightarrow> pk \<Rightarrow> datetime \<Rightarrow> datetime \<Rightarrow> toggle_state" where
  "toggle_twice s u reef_id now now' =
     fst (bookmark_toggle (fst (bookmark_toggle s (Some u) reef_id now)) (Some u) reef_id now')"


section \<open>Session state and the reef detail view (core/views.py, ReefDetailView)\<close>

text \<open>
  The two keys that the views keep in \<open>request.session\<close>; \<open>None\<close> is a key that is
  not in the session.
\<close>

record session =
  viewed_reefs :: "pk list option"
  last_reef_filters :: "(string \<times> string \<times> string) option"

definition new_session :: session where
  "new_session = \<lparr>viewed_reefs = None, last_reef_filters = None\<rparr>"

text \<open>
  The session part of \<open>ReefDetailView.get_context_data\<close>, for the reef that
  \<open>get_object\<close> returned. \<open>list.remove\<close> drops the first occurrence, \<open>insert(0, _)\<close>
  prepends, \<open>[:10]\<close> keeps the first ten.
\<close>

definition ReefDetailView_get_context_data :: "session \<Rightarrow> Reef \<Rightarrow> session" where
  "ReefDetailView_get_context_data sess reef =
     (let sess1 = (if viewed_reefs sess = None then sess\<lparr>viewed_reefs := Some []\<rparr> else sess);
          viewed = (case viewed_reefs sess1 of None \<Rightarrow> [] | Some v \<Rightarrow> v);
          reef_id = Reef_id reef;
          viewed1 = (if reef_id \<in> set viewed then remove1 reef_id viewed else viewed);
          viewed2 = reef_id # viewed1
      in sess1\<lparr>viewed_reefs := Some (take 10 viewed2)\<rparr>)"

text \<open>The detail pages of a list of reefs, viewed in that order in one session.\<close>

fun detail_views :: "session \<Rightarrow> Reef list \<Rightarrow> session" where
  "detail_views sess [] = sess"
| "detail_views sess (reef # rs) = detail_views (ReefDetailView_get_context_data sess reef) rs"

text \<open>The list that \<open>session.get('viewed_reefs', [])\<close> reads.\<close>

definition recently_viewed :: "session \<Rightarrow> pk list" where
  "recently_viewed sess = (case viewed_reefs sess of None \<Rightarrow> [] | Some v \<Rightarrow> v)"


section \<open>Querysets: filter, order_by, evaluation\<close>

text \<open>
  A queryset is the rows selected so far, in the order the table stores them, and the
  \<open>ORDER BY\<close> terms that apply when it is evaluated. \<open>filter\<close> narrows the rows,
  \<open>order_by\<close> replaces the terms; the model's \<open>Meta.ordering\<close> is what a manager's
  queryset starts with.
\<close>

record 'a queryset =
  qs_rows :: "'a list"
  qs_ordering :: "string list"

definition qs_filter :: "('a \<Rightarrow> bool) \<Rightarrow> 'a queryset \<Rightarrow> 'a queryset" where
  "qs_filter p qs = qs\<lparr>qs_rows := filter p (qs_rows qs)\<rparr>"

definition qs_order_by :: "string list \<Rightarrow> 'a queryset \<Rightarrow> 'a queryset" where
  "qs_order_by fs qs = qs\<lparr>qs_ordering := fs\<rparr>"

text \<open>
  An ordering term is a field name, with a leading \<open>-\<close> for descending order. A model
  says which names are columns and how each compares two rows; a name it does not know
  is a \<open>FieldError\<close>. Text columns compare as character lists.
\<close>

type_synonym 'a columns = "string \<Rightarrow> ('a \<Rightarrow> 'a \<Rightarrow> bool) option"

definition by_key :: "('a \<Rightarrow> 'k::linorder) \<Rightarrow> 'a \<Rightarrow> 'a \<Rightarrow> bool" where
  "by_key f a b = (f a \<le> f b)"

definition descending :: "('a \<Rightarrow> 'a \<Rightarrow> bool) \<Rightarrow> 'a \<Rightarrow> 'a \<Rightarrow> bool" where
  "descending le a b = le b a"

definition order_term :: "'a columns \<Rightarrow> string \<Rightarrow> ('a \<Rightarrow> 'a \<Rightarrow> bool) option" where
  "order_term cols t =
     (case t of
        [] \<Rightarrow> cols t
      | c # f \<Rightarrow> if c = CHR ''-'' then map_option descending (cols f) else cols t)"

text \<open>Several terms order lexicographically: a later term decides among ties of the earlier.\<close>

fun lex_le :: "('a \<Rightarrow> 'a \<Rightarrow> bool) list \<Rightarrow> 'a \<Rightarrow> 'a \<Rightarrow> bool" where
  "lex_le [] a b = True"
| "lex_le (le # les) a b = (if le a b \<and> le b a then lex_le les a b else le a b)"

text \<open>
  The database's sort, as a stable insertion sort: rows that the terms do not tell apart
  stay in table order (SQL leaves their order open).
\<close>

fun insort_by :: "('a \<Rightarrow> 'a \<Rightarrow> bool) \<Rightarrow> 'a \<Rightarrow> 'a list \<Rightarrow> 'a list" where
  "insort_by le x [] = [x]"
| "insort_by le x (y # ys) = (if le x y then x # y # ys else y # insort_by le x ys)"

definition sort_by :: "('a \<Rightarrow> 'a \<Rightarrow> bool) \<Rightarrow> 'a list \<Rightarrow> 'a list" where
  "sort_by le xs = foldr (insort_by le) xs []"

fun resolve_terms :: "'a columns \<Rightarrow> string list \<Rightarrow> ('a \<Rightarrow> 'a \<Rightarrow> bool) list option" where
  "resolve_terms cols [] = Some []"
| "resolve_terms cols (t # ts) =
     (case order_term cols t of
        None \<Rightarrow> None
      | Some le \<Rightarrow> map_option ((#) le) (resolve_terms cols ts))"

definition qs_eval :: "'a columns \<Rightarrow> 'a queryset \<Rightarrow> error + 'a list" where
  "qs_eval cols qs =
     (case resolve_terms cols (qs_ordering qs) of
        None \<Rightarrow> Inl FieldError
      | Some les \<Rightarrow> Inr (sort_by (lex_le les) (qs_rows qs)))"

text \<open>
  \<open>request.GET\<close> and \<open>request.GET.get(key, default)\<close>.
\<close>

type_synonym querydict = "string \<rightharpoonup> string"

definition GET_get :: "querydict \<Rightarrow> string \<Rightarrow> string \<Rightarrow> string" where
  "GET_get q k d = (case q k of None \<Rightarrow> d | Some v \<Rightarrow> v)"

text \<open>
  \<open>field__icontains=q\<close>: \<open>q\<close> occurs in the field as a contiguous piece, letter case
  ignored. Strings are ASCII here, so lowering a letter is the map A..Z to a..z.
\<close>

definition lower_char :: "char \<Rightarrow> char" where
  "lower_char c =
     (case map_of (zip ''ABCDEFGHIJKLMNOPQRSTUVWXYZ'' ''abcdefghijklmnopqrstuvwxyz'') c of
        None \<Rightarrow> c
      | Some l \<Rightarrow> l)"

definition lower :: "string \<Rightarrow> string" where
  "lower s = map lower_char s"

fun contains :: "string \<Rightarrow> string \<Rightarrow> bool" where
  "contains q [] = (q = [])"
| "contains q (c # s) = (take (length q) (c # s) = q \<or> contains q s)"

definition icontains :: "string \<Rightarrow> string \<Rightarrow> bool" where
  "icontains q s = contains (lower q) (lower s)"

section \<open>Listing views (core/views.py)\<close>

subsection \<open>Reefs\<close>

definition Reef_columns :: "Reef columns" where
  "Reef_columns f =
     (if f = ''id'' then Some (by_key Reef_id)
      else if f = ''name'' then Some (by_key Reef_name)
      else if f = ''region'' then Some (by_key Reef_region)
      else if f = ''country'' then Some (by_key Reef_country)
      else if f = ''latitude'' then Some (by_key Reef_latitude)
      else if f = ''longitude'' then Some (by_key Reef_longitude)
      else if f = ''description'' then Some (by_key Reef_description)
      else if f = ''area_km2'' then Some (by_key Reef_area_km2)
      else if f = ''depth_meters'' then Some (by_key Reef_depth_meters)
      else if f = ''health_status'' then Some (by_key Reef_health_status)
      else if f = ''created_at'' then Some (by_key Reef_created_at)
      else if f = ''updated_at'' then Some (by_key Reef_updated_at)
      else None)"

text \<open>\<open>Reef.objects.all()\<close>, with \<open>Meta.ordering = ['-created_at']\<close>.\<close>

definition Reef_objects :: "Reef list \<Rightarrow> Reef queryset" where
  "Reef_objects table = \<lparr>qs_rows = table, qs_ordering = [''-created_at'']\<rparr>"

definition Reef_sort_keys :: "string list" where
  "Reef_sort_keys = [''name'', ''-name'', ''area_km2'', ''-area_km2'', ''health_status'',
                     ''-health_status'', ''created_at'', ''-created_at'']"

definition ReefListView_get_queryset ::
  "Reef list \<Rightarrow> querydict \<Rightarrow> session \<Rightarrow> Reef queryset \<times> session" where
  "ReefListView_get_queryset table GET sess =
     (let queryset = Reef_objects table;
          search_query = GET_get GET ''search'' [];
          queryset = (if search_query \<noteq> []
                      then qs_filter (\<lambda>r. icontains search_query (Reef_name r) \<or>
                                            icontains search_query (Reef_country r) \<or>
                                            icontains search_query (Reef_description r)) queryset
                      else queryset);
          region = GET_get GET ''region'' [];
          queryset = (if region \<noteq> [] then qs_filter (\<lambda>r. Reef_region r = region) queryset
                      else queryset);
          health = GET_get GET ''health'' [];
          queryset = (if health \<noteq> [] then qs_filter (\<lambda>r. Reef_health_status r = health) queryset
                      else queryset);
          sort = GET_get GET ''sort'' ''-created_at'';
          queryset = (if sort \<in> set Reef_sort_keys then qs_order_by [sort] queryset
                      else queryset)
      in (queryset, sess\<lparr>last_reef_filters := Some (search_query, region, health)\<rparr>))"

text \<open>The reefs that the list page is built from: the view's queryset, evaluated.\<close>

definition reef_list :: "Reef list \<Rightarrow> querydict \<Rightarrow> session \<Rightarrow> error + Reef list" where
  "reef_list table GET sess = qs_eval Reef_columns (fst (ReefListView_get_queryset table GET sess))"

subsection \<open>Articles\<close>

definition Article_columns :: "Article columns" where
  "Article_columns f =
     (if f = ''id'' then Some (by_key Article_id)
      else if f = ''title'' then Some (by_key Article_title)
      else if f = ''slug'' then Some (by_key Article_slug)
      else if f = ''category'' then Some (by_key Article_category)
      else if f = ''content'' then Some (by_key Article_content)
      else if f = ''excerpt'' then Some (by_key Article_excerpt)
      else if f = ''published'' then Some (by_key Article_published)
      else if f = ''featured'' then Some (by_key Article_featured)
      else if f = ''created_at'' then Some (by_key Article_created_at)
      else if f = ''updated_at'' then Some (by_key Article_updated_at)
      else None)"

text \<open>\<open>Article.objects\<close>, with \<open>Meta.ordering = ['-created_at']\<close>.\<close>

definition Article_objects :: "Article list \<Rightarrow> Article queryset" where
  "Article_objects table = \<lparr>qs_rows = table, qs_ordering = [''-created_at'']\<rparr>"

definition Article_sort_keys :: "string list" where
  "Article_sort_keys = [''title'', ''-title'', ''created_at'', ''-created_at'']"

definition ArticleListView_get_queryset :: "Article list \<Rightarrow> querydict \<Rightarrow> Article queryset" where
  "ArticleListView_get_queryset table GET =
     (let queryset = qs_filter Article_published (Article_objects table);
          search_query = GET_get GET ''search'' [];
          queryset = (if search_query \<noteq> []
                      then qs_filter (\<lambda>a. icontains search_query (Article_title a) \<or>
                                            icontains search_query (Article_content a) \<or>
                                            icontains search_query (Article_excerpt a)) queryset
                      else queryset);
          category = GET_get GET ''category'' [];
          queryset = (if category \<noteq> [] then qs_filter (\<lambda>a. Article_category a = category) queryset
                      else queryset);
          sort = GET_get GET ''sort'' ''-created_at'';
          queryset = (if sort \<in> set Article_sort_keys then qs_order_by [sort] queryset
                      else queryset)
      in queryset)"

definition article_list :: "Article list \<Rightarrow> querydict \<Rightarrow> error + Article list" where
  "article_list table GET = qs_eval Article_columns (ArticleListView_get_queryset table GET)"

text \<open>
  \<open>ArticleDetailView\<close>: \<open>get_object\<close> looks the article of the URL up, by primary key or
  by slug, in \<open>get_queryset()\<close>; no such row is \<open>Http404\<close>.
\<close>

datatype lookup = ByPk pk | BySlug string

fun Article_matches :: "lookup \<Rightarrow> Article \<Rightarrow> bool" where
  "Article_matches (ByPk i) a = (Article_id a = i)"
| "Article_matches (BySlug s) a = (Article_slug a = s)"

definition ArticleDetailView_get_queryset :: "Article list \<Rightarrow> Article queryset" where
  "ArticleDetailView_get_queryset table = qs_filter Article_published (Article_objects table)"

definition ArticleDetailView_get_object :: "Article list \<Rightarrow> lookup \<Rightarrow> error + Article" where
  "ArticleDetailView_get_object table key =
     (case qs_rows (qs_filter (Article_matches key) (ArticleDetailView_get_queryset table)) of
        [] \<Rightarrow> Inl Http404
      | [a] \<Rightarrow> Inr a
      | _ \<Rightarrow> Inl MultipleObjectsReturned)"

subsection \<open>Events\<close>

definition Event_columns :: "Event columns" where
  "Event_columns f =
     (if f = ''id'' then Some (by_key Event_id)
      else if f = ''event_type'' then Some (by_key Event_event_type)
      else if f = ''title'' then Some (by_key Event_title)
      else if f = ''description'' then Some (by_key Event_description)
      else if f = ''severity'' then Some (by_key Event_severity)
      else if f = ''event_date'' then Some (by_key Event_event_date)
      else if f = ''created_at'' then Some (by_key Event_created_at)
      else if f = ''updated_at'' then Some (by_key Event_updated_at)
      else if f = ''resolved'' then Some (by_key Event_resolved)
      else if f = ''notes'' then Some (by_key Event_notes)
      else None)"

text \<open>\<open>Event.objects.all()\<close>, with \<open>Meta.ordering = ['-event_date', '-created_at']\<close>.\<close>

definition Event_objects :: "Event list \<Rightarrow> Event queryset" where
  "Event_objects table = \<lparr>qs_rows = table, qs_ordering = [''-event_date'', ''-created_at'']\<rparr>"

definition Event_sort_keys :: "string list" where
  "Event_sort_keys = [''event_date'', ''-event_date'', ''severity'', ''-severity'',
                      ''created_at'', ''-created_at'']"

text \<open>
  \<open>filter(event_date__year=year)\<close> is handed the text of the request. Turning that text
  into the year to compare with is the framework's work and is the parameter
  \<open>year_lookup\<close>: it gives the year, or raises when the text is not a usable year.
\<close>

definition EventListView_get_queryset ::
  "(string \<Rightarrow> error + int) \<Rightarrow> Event list \<Rightarrow> querydict \<Rightarrow> error + Event queryset" where
  "EventListView_get_queryset year_lookup table GET =
     (let queryset = Event_objects table;
          event_type = GET_get GET ''event_type'' [];
          queryset = (if event_type \<noteq> [] then qs_filter (\<lambda>e. Event_event_type e = event_type) queryset
                      else queryset);
          severity = GET_get GET ''severity'' [];
          queryset = (if severity \<noteq> [] then qs_filter (\<lambda>e. Event_severity e = severity) queryset
                      else queryset);
          year = GET_get GET ''year'' []
      in case (if year \<noteq> []
               then (case year_lookup year of
                       Inl err \<Rightarrow> Inl err
                     | Inr y \<Rightarrow> Inr (qs_filter (\<lambda>e. fst (Event_event_date e) = y) queryset))
               else Inr queryset) of
           Inl err \<Rightarrow> Inl err
         | Inr queryset \<Rightarrow>
             (let resolved = GET_get GET ''resolved'' [];
                  queryset = (if resolved \<in> set [''true'', ''false'']
                              then qs_filter (\<lambda>e. Event_resolved e = (resolved = ''true'')) queryset
                              else queryset);
                  sort = GET_get GET ''sort'' ''-event_date'';
                  queryset = (if sort \<in> set Event_sort_keys then qs_order_by [sort] queryset
                              else queryset)
              in Inr queryset))"

definition event_list :: "(string \<Rightarrow> error + int) \<Rightarrow> Event list \<Rightarrow> querydict \<Rightarrow> error + Event list" where
  "event_list year_lookup table GET =
     (case EventListView_get_queryset year_lookup table GET of
        Inl err \<Rightarrow> Inl err
      | Inr queryset \<Rightarrow> qs_eval Event_columns queryset)"

text \<open>Whether the year filter of a request raises, and with what.\<close>

definition year_error :: "(string \<Rightarrow> error + int) \<Rightarrow> querydict \<Rightarrow> error option" where
  "year_error year_lookup GET =
     (if GET_get GET ''year'' [] = [] then None
      else (case year_lookup (GET_get GET ''year'' []) of Inl err \<Rightarrow> Some err | Inr y \<Rightarrow> None))"

subsection \<open>What a listing's order means\<close>

definition ascending_by :: "('a \<Rightarrow> 'k::linorder) \<Rightarrow> 'a list \<Rightarrow> bool" where
  "ascending_by k rows = sorted (map k rows)"

definition descending_by :: "('a \<Rightarrow> 'k::linorder) \<Rightarrow> 'a list \<Rightarrow> bool" where
  "descending_by k rows = sorted (rev (map k rows))"

definition total_preorder :: "('a \<Rightarrow> 'a \<Rightarrow> bool) \<Rightarrow> bool" where
  "total_preorder le = ((\<forall>a b. le a b \<or> le b a) \<and> (\<forall>a b c. le a b \<longrightarrow> le b c \<longrightarrow> le a c))"

text \<open>
  The order that the specification asks of each listing, as a function of the \<open>sort\<close>
  parameter of the request (\<open>None\<close> when the request has none): the key's order for a
  key of the listing's allow-list, the listing's default order otherwise.
\<close>

definition Reef_listing_order :: "string option \<Rightarrow> Reef list \<Rightarrow> bool" where
  "Reef_listing_order param rows =
     (if param = Some ''name'' then ascending_by Reef_name rows
      else if param = Some ''-name'' then descending_by Reef_name rows
      else if param = Some ''area_km2'' then ascending_by Reef_area_km2 rows
      else if param = Some ''-area_km2'' then descending_by Reef_area_km2 rows
      else if param = Some ''health_status'' then ascending_by Reef_health_status rows
      else if param = Some ''-health_status'' then descending_by Reef_health_status rows
      else if param = Some ''created_at'' then ascending_by Reef_created_at rows
      else descending_by Reef_created_at rows)"

definition Article_listing_order :: "string option \<Rightarrow> Article list \<Rightarrow> bool" where
  "Article_listing_order param rows =
     (if param = Some ''title'' then ascending_by Article_title rows
      else if param = Some ''-title'' then descending_by Article_title rows
      else if param = Some ''created_at'' then ascending_by Article_created_at rows
      else descending_by Article_created_at rows)"

definition Event_listing_order :: "string option \<Rightarrow> Event list \<Rightarrow> bool" where
  "Event_listing_order param rows =
     (if param = Some ''event_date'' then ascending_by Event_event_date rows
      else if param = Some ''severity'' then ascending_by Event_severity rows
      else if param = Some ''-severity'' then descending_by Event_severity rows
      else if param = Some ''created_at'' then ascending_by Event_created_at rows
      else if param = Some ''-created_at'' then descending_by Event_created_at rows
      else descending_by Event_event_date rows)"


section \<open>Report forms (core/forms.py) and the pollution report view (core/views.py)\<close>

text \<open>
  A form reads the request's POST data. The cleaned values of a ModelForm are those of
  the fields that \<open>Meta.fields\<close> lists, and only these are copied into the instance.
  Cleaning the single fields (required, choices, dates, the reef's key) is generated by
  the framework from the model; it is the parameter \<open>clean_fields\<close> of a form below,
  which gives the error messages or the cleaned values.
\<close>

type_synonym post = "string \<rightharpoonup> string"

record pollution_fields =
  pf_reef :: pk
  pf_title :: string
  pf_description :: string
  pf_severity :: string
  pf_event_date :: date
  pf_notes :: string

record sighting_fields =
  sf_reef :: pk
  sf_title :: string
  sf_description :: string
  sf_event_date :: date
  sf_notes :: string

text \<open>
  \<open>Event()\<close>: a new instance with the model's defaults. It has no id yet; the reef and
  the date are unset until the form fills them in, and stand here as zeros.
\<close>

definition Event_new :: Event where
  "Event_new =
     \<lparr>Event_id = 0, Event_reef = 0, Event_event_type = [], Event_title = [],
      Event_description = [], Event_severity = ''medium'', Event_event_date = (0, 0, 0),
      Event_reported_by = None, Event_created_at = 0, Event_updated_at = 0,
      Event_resolved = False, Event_notes = []\<rparr>"

record event_store =
  events :: "Event list"
  next_event_id :: pk
  notices :: "string list"

text \<open>\<open>save()\<close> of a new instance inserts it with the next id and the two timestamps.\<close>

definition Event_save :: "datetime \<Rightarrow> Event \<Rightarrow> event_store \<Rightarrow> event_store" where
  "Event_save now e st =
     st\<lparr>events := events st @
           [e\<lparr>Event_id := next_event_id st, Event_created_at := now, Event_updated_at := now\<rparr>],
        next_event_id := Suc (next_event_id st)\<rparr>"

text \<open>\<open>PollutionReportForm.__init__\<close>: the instance of the form, with its type set.\<close>

definition PollutionReportForm_init :: Event where
  "PollutionReportForm_init = Event_new\<lparr>Event_event_type := ''pollution''\<rparr>"

text \<open>
  Validation of the bound form: the errors, or the instance with the cleaned values of
  \<open>reef, title, description, severity, event_date, notes\<close> copied in.
\<close>

definition PollutionReportForm_is_valid ::
  "(post \<Rightarrow> string list + pollution_fields) \<Rightarrow> post \<Rightarrow> string list + Event" where
  "PollutionReportForm_is_valid clean_fields POST =
     (case clean_fields POST of
        Inl errors \<Rightarrow> Inl errors
      | Inr c \<Rightarrow>
          Inr (PollutionReportForm_init
                 \<lparr>Event_reef := pf_reef c, Event_title := pf_title c,
                  Event_description := pf_description c, Event_severity := pf_severity c,
                  Event_event_date := pf_event_date c, Event_notes := pf_notes c\<rparr>))"

datatype page = Redirect string | FormErrors "string list"

text \<open>
  \<open>PollutionReportCreateView\<close>, a POST request. \<open>LoginRequiredMixin\<close> sends an anonymous
  user to the login page; an invalid form is shown again with its errors;
  \<open>form_valid\<close> sets the reporter and the type, queues the message and saves.
\<close>

definition PollutionReportCreateView_form_valid ::
  "event_store \<Rightarrow> pk \<Rightarrow> Event \<Rightarrow> datetime \<Rightarrow> event_store \<times> page" where
  "PollutionReportCreateView_form_valid st user inst now =
     (let inst = inst\<lparr>Event_reported_by := Some user\<rparr>;
          inst = inst\<lparr>Event_event_type := ''pollution''\<rparr>;
          st = st\<lparr>notices := notices st @
                  [''Pollution report submitted successfully. Thank you!'']\<rparr>
      in (Event_save now inst st, Redirect ''event_list''))"

definition PollutionReportCreateView_post ::
  "(post \<Rightarrow> string list + pollution_fields) \<Rightarrow> event_store \<Rightarrow> pk option \<Rightarrow> post \<Rightarrow> datetime
     \<Rightarrow> event_store \<times> page" where
  "PollutionReportCreateView_post clean_fields st user POST now =
     (case user of
        None \<Rightarrow> (st, Redirect ''login'')
      | Some u \<Rightarrow>
          (case PollutionReportForm_is_valid clean_fields POST of
             Inl errors \<Rightarrow> (st, FormErrors errors)
           | Inr inst \<Rightarrow> PollutionReportCreateView_form_valid st u inst now))"

text \<open>\<open>CoralSightingForm.__init__\<close>: type and severity are set on the instance.\<close>

definition CoralSightingForm_init :: Event where
  "CoralSightingForm_init =
     Event_new\<lparr>Event_event_type := ''sighting'', Event_severity := ''low''\<rparr>"

definition CoralSightingForm_is_valid ::
  "(post \<Rightarrow> string list + sighting_fields) \<Rightarrow> post \<Rightarrow> string list + Event" where
  "CoralSightingForm_is_valid clean_fields POST =
     (case clean_fields POST of
        Inl errors \<Rightarrow> Inl errors
      | Inr c \<Rightarrow>
          Inr (CoralSightingForm_init
                 \<lparr>Event_reef := sf_reef c, Event_title := sf_title c,
                  Event_description := sf_description c,
                  Event_event_date := sf_event_date c, Event_notes := sf_notes c\<rparr>))"

text \<open>
  \<open>form.save()\<close> of the sighting form: \<open>ValueError\<close> for a form that did not validate
  (nothing is saved), the instance saved otherwise.
\<close>

definition CoralSightingForm_save ::
  "(post \<Rightarrow> string list + sighting_fields) \<Rightarrow> event_store \<Rightarrow> post \<Rightarrow> datetime
     \<Rightarrow> event_store \<times> error option" where
  "CoralSightingForm_save clean_fields st POST now =
     (case CoralSightingForm_is_valid clean_fields POST of
        Inl errors \<Rightarrow> (st, Some ValueError)
      | Inr inst \<Rightarrow> (Event_save now inst st, None))"

section \<open>Media upload form (core/forms.py, ImageUploadForm)\<close>

text \<open>\<open>str.split(sep)\<close> for a one-character separator, and the last piece, \<open>[-1]\<close>.\<close>

fun py_split :: "char \<Rightarrow> string \<Rightarrow> string list" where
  "py_split sep [] = [[]]"
| "py_split sep (c # cs) =
     (if c = sep then [] # py_split sep cs
      else (case py_split sep cs of
              [] \<Rightarrow> [[c]]
            | w # ws \<Rightarrow> (c # w) # ws))"

record uploaded_file =
  file_name :: string
  file_size :: nat

text \<open>
  \<open>cleaned_data\<close> when \<open>clean\<close> runs: a field that failed its own validation is not
  in it, and \<open>get\<close> gives \<open>None\<close> for it.
\<close>

record upload_cleaned_data =
  cd_reef :: "pk option"
  cd_event :: "pk option"
  cd_media_type :: "string option"
  cd_title :: "string option"
  cd_description :: string
  cd_file :: "uploaded_file option"

definition video_extensions :: "string list" where
  "video_extensions = [''mp4'', ''mov'', ''avi'', ''mkv'', ''webm'']"

definition image_extensions :: "string list" where
  "image_extensions = [''jpg'', ''jpeg'', ''png'', ''gif'', ''bmp'', ''webp'']"

definition photo_but_video :: string where
  \<open>photo_but_video =
     ''You selected "Photo" but uploaded a video file. Please select "Video" as media type.''\<close>

definition video_but_image :: string where
  \<open>video_but_image =
     ''You selected "Video" but uploaded an image file. Please select "Photo" as media type.''\<close>

definition file_ext :: "uploaded_file \<Rightarrow> string" where
  "file_ext file = lower (last (py_split (CHR ''.'') (file_name file)))"

text \<open>
  \<open>ImageUploadForm.clean\<close>. \<open>if file and media_type\<close> asks for both to be there and
  truthy: a file with a name, a non-empty type. \<open>Inl\<close> is the \<open>ValidationError\<close>.
\<close>

definition ImageUploadForm_clean :: "upload_cleaned_data \<Rightarrow> string + upload_cleaned_data" where
  "ImageUploadForm_clean cleaned_data =
     (let media_type = cd_media_type cleaned_data;
          file = cd_file cleaned_data
      in case (file, media_type) of
           (Some f, Some m) \<Rightarrow>
             if file_name f \<noteq> [] \<and> m \<noteq> []
             then (if m = ''photo'' \<and> file_ext f \<in> set video_extensions
                   then Inl photo_but_video
                   else if m = ''video'' \<and> file_ext f \<in> set image_extensions
                   then Inl video_but_image
                   else Inr cleaned_data)
             else Inr cleaned_data
         | _ \<Rightarrow> Inr cleaned_data)"

text \<open>
  The bound form after the fields were cleaned: the messages of the fields that failed
  and the cleaned data of the others. Its errors are the field errors and the error of
  \<open>clean\<close>.
\<close>

record upload_form =
  field_errors :: "string list"
  cleaned_data :: upload_cleaned_data

definition ImageUploadForm_errors :: "upload_form \<Rightarrow> string list" where
  "ImageUploadForm_errors form =
     field_errors form @
     (case ImageUploadForm_clean (cleaned_data form) of Inl msg \<Rightarrow> [msg] | Inr _ \<Rightarrow> [])"

definition ImageUploadForm_is_valid :: "upload_form \<Rightarrow> bool" where
  "ImageUploadForm_is_valid form = (ImageUploadForm_errors form = [])"

text \<open>
  What a submitted upload form is bound to, from \<open>request.POST\<close> and \<open>request.FILES\<close>:
  the texts of the type, the title and the description, the file, and the reef and
  event chosen in the two optional selects (\<open>None\<close> when none is chosen).
\<close>

record upload_data =
  up_reef :: "pk option"
  up_event :: "pk option"
  up_media_type :: "string option"
  up_title :: "string option"
  up_description :: string
  up_file :: "uploaded_file option"

definition MEDIA_TYPE_CHOICES :: "string list" where
  "MEDIA_TYPE_CHOICES = [''photo'', ''video'']"

text \<open>\<open>str.strip()\<close> on ASCII text, which a text field applies to its input.\<close>

definition is_space :: "char \<Rightarrow> bool" where
  "is_space c = (c \<in> set [CHR '' '', CHR 0x09, CHR 0x0A, CHR 0x0B, CHR 0x0C, CHR 0x0D])"

definition strip :: "string \<Rightarrow> string" where
  "strip s = rev (dropWhile is_space (rev (dropWhile is_space s)))"

text \<open>
  The cleaning of the single fields, which runs before \<open>clean\<close>: \<open>Inl\<close> is the field's
  error message. The type is required and must be one of the model's choices; the title
  is required, with at most 200 characters. The file field is the one that forms.py
  declares, \<open>FileField(validators=[FileValidator()])\<close>: a file is required, it must have
  a name and must not be empty, and the validator must accept it. The validator is the
  parameter \<open>validator\<close>: it gives its message, or \<open>None\<close> for a file it accepts.
\<close>

definition clean_media_type :: "string option \<Rightarrow> string + string" where
  "clean_media_type data =
     (case data of
        None \<Rightarrow> Inl ''This field is required.''
      | Some m \<Rightarrow>
          if m = [] then Inl ''This field is required.''
          else if m \<in> set MEDIA_TYPE_CHOICES then Inr m
          else Inl ''Select a valid choice.'')"

definition clean_title :: "string option \<Rightarrow> string + string" where
  "clean_title data =
     (case data of
        None \<Rightarrow> Inl ''This field is required.''
      | Some t \<Rightarrow>
          if strip t = [] then Inl ''This field is required.''
          else if 200 < length (strip t) then Inl ''Ensure this value has at most 200 characters.''
          else Inr (strip t))"

definition clean_file ::
  "(uploaded_file \<Rightarrow> string option) \<Rightarrow> uploaded_file option \<Rightarrow> string + uploaded_file" where
  "clean_file validator data =
     (case data of
        None \<Rightarrow> Inl ''This field is required.''
      | Some f \<Rightarrow>
          if file_name f = [] then Inl ''No file was submitted.''
          else if file_size f = 0 then Inl ''The submitted file is empty.''
          else (case validator f of
                  Some msg \<Rightarrow> Inl msg
                | None \<Rightarrow> Inr f))"

definition field_error :: "string + 'a \<Rightarrow> string list" where
  "field_error r = (case r of Inl msg \<Rightarrow> [msg] | Inr _ \<Rightarrow> [])"

definition field_value :: "string + 'a \<Rightarrow> 'a option" where
  "field_value r = (case r of Inl _ \<Rightarrow> None | Inr v \<Rightarrow> Some v)"

definition ImageUploadForm_clean_fields ::
  "(uploaded_file \<Rightarrow> string option) \<Rightarrow> upload_data \<Rightarrow> upload_form" where
  "ImageUploadForm_clean_fields validator data =
     (let media_type = clean_media_type (up_media_type data);
          title = clean_title (up_title data);
          file = clean_file validator (up_file data)
      in \<lparr>field_errors = field_error media_type @ field_error title @ field_error file,
          cleaned_data =
            \<lparr>cd_reef = up_reef data, cd_event = up_event data,
             cd_media_type = field_value media_type, cd_title = field_value title,
             cd_description = strip (up_description data),
             cd_file = field_value file\<rparr>\<rparr>)"

text \<open>
  Modelled from the spec: \<open>FileValidator\<close> (core/validators.py) is not among the sources.
  The specification (4.2) has it enforce size ceilings (10MB images / 50MB video) and an
  allowed-extension set; the help text of the form's file field names the set: JPG, PNG,
  GIF, MP4, MOV. The wording of its two messages is not given.
\<close>

definition FileValidator :: "uploaded_file \<Rightarrow> string option" where
  "FileValidator file =
     (if file_ext file \<in> set [''jpg'', ''png'', ''gif'']
      then (if 10 * 1024 * 1024 < file_size file then Some ''File too large.'' else None)
      else if file_ext file \<in> set [''mp4'', ''mov'']
      then (if 50 * 1024 * 1024 < file_size file then Some ''File too large.'' else None)
      else Some ''File type not allowed.'')"

text \<open>
  \<open>form.save()\<close>: \<open>ValueError\<close> for a form with errors, the new row otherwise. The file
  goes under \<open>upload_to\<close>, whose date pattern the framework fills in from the clock; that
  formatting is the parameter \<open>strftime\<close>. The storage's renaming of a name that is
  taken or has unusual characters is left out.
\<close>

record gallery_store =
  gallery :: "ImageGallery list"
  next_gallery_id :: pk

definition ImageGallery_upload_to :: string where
  "ImageGallery_upload_to = ''uploads/%Y/%m/''"

definition ImageUploadForm_save ::
  "(string \<Rightarrow> datetime \<Rightarrow> string) \<Rightarrow> gallery_store \<Rightarrow> upload_form \<Rightarrow> pk option \<Rightarrow> datetime
     \<Rightarrow> gallery_store \<times> error option" where
  "ImageUploadForm_save strftime st form uploader now =
     (if \<not> ImageUploadForm_is_valid form then (st, Some ValueError)
      else (case (cd_media_type (cleaned_data form), cd_title (cleaned_data form),
                  cd_file (cleaned_data form)) of
              (Some m, Some t, Some f) \<Rightarrow>
                (st\<lparr>gallery := gallery st @
                       [\<lparr>ImageGallery_id = next_gallery_id st,
                         ImageGallery_reef = cd_reef (cleaned_data form),
                         ImageGallery_event = cd_event (cleaned_data form),
                         ImageGallery_media_type = m, ImageGallery_title = t,
                         ImageGallery_description = cd_description (cleaned_data form),
                         ImageGallery_file = strftime ImageGallery_upload_to now @ file_name f,
                         ImageGallery_uploaded_by = uploader,
                         ImageGallery_uploaded_at = now\<rparr>],
                    next_gallery_id := Suc (next_gallery_id st)\<rparr>, None)
            | _ \<Rightarrow> (st, Some ValueError)))"

section \<open>Deleting a reef (core/models.py, on_delete)\<close>

text \<open>
  What a foreign key declares for the deletion of the row it points to. The foreign keys
  that lead to a reef, directly or through an event, as models.py declares them:
\<close>

datatype on_delete = CASCADE | SET_NULL

definition Event_reef_on_delete :: on_delete where
  "Event_reef_on_delete = CASCADE"

definition ImageGallery_reef_on_delete :: on_delete where
  "ImageGallery_reef_on_delete = CASCADE"

definition ImageGallery_event_on_delete :: on_delete where
  "ImageGallery_event_on_delete = CASCADE"

definition ReefBookmark_reef_on_delete :: on_delete where
  "ReefBookmark_reef_on_delete = CASCADE"

record database =
  Reef_table :: "Reef list"
  Event_table :: "Event list"
  ImageGallery_table :: "ImageGallery list"
  ReefBookmark_table :: "ReefBookmark list"

text \<open>
  The deletion collector on one foreign key of a table, for the keys \<open>gone\<close> of the parent
  rows being deleted: \<open>CASCADE\<close> takes the referring rows out and reports them as deleted
  (their own dependants follow), \<open>SET_NULL\<close> keeps them with the key nulled.
\<close>

definition refers :: "('r \<Rightarrow> pk option) \<Rightarrow> pk list \<Rightarrow> 'r \<Rightarrow> bool" where
  "refers fk gone row = (case fk row of None \<Rightarrow> False | Some p \<Rightarrow> p \<in> set gone)"

definition collect :: "on_delete \<Rightarrow> ('r \<Rightarrow> pk option) \<Rightarrow> ('r \<Rightarrow> 'r) \<Rightarrow> pk list \<Rightarrow> 'r list
    \<Rightarrow> 'r list \<times> 'r list" where
  "collect rule fk set_null gone rows =
     (case rule of
        CASCADE \<Rightarrow> (filter (\<lambda>row. \<not> refers fk gone row) rows, filter (refers fk gone) rows)
      | SET_NULL \<Rightarrow> (map (\<lambda>row. if refers fk gone row then set_null row else row) rows, []))"

text \<open>
  \<open>reef.delete()\<close>: the events of the reef, the gallery items of these events and of the
  reef, and the bookmarks of the reef are collected along the foreign keys, then the
  reef's row goes. \<open>Event.reef\<close> and \<open>ReefBookmark.reef\<close> are not nullable.
\<close>

definition Reef_delete :: "pk \<Rightarrow> database \<Rightarrow> database" where
  "Reef_delete reef_id db =
     (let (events_kept, events_gone) =
            collect Event_reef_on_delete (\<lambda>e. Some (Event_reef e)) (\<lambda>e. e) [reef_id]
              (Event_table db);
          (gallery_kept, gallery_gone) =
            collect ImageGallery_event_on_delete ImageGallery_event
              (\<lambda>g. g\<lparr>ImageGallery_event := None\<rparr>) (map Event_id events_gone)
              (ImageGallery_table db);
          (gallery_kept, gallery_gone) =
            collect ImageGallery_reef_on_delete ImageGallery_reef
              (\<lambda>g. g\<lparr>ImageGallery_reef := None\<rparr>) [reef_id] gallery_kept;
          (bookmarks_kept, bookmarks_gone) =
            collect ReefBookmark_reef_on_delete (\<lambda>b. Some (ReefBookmark_reef b)) (\<lambda>b. b)
              [reef_id] (ReefBookmark_table db)
      in db\<lparr>Reef_table := filter (\<lambda>r. Reef_id r \<noteq> reef_id) (Reef_table db),
            Event_table := events_kept,
            ImageGallery_table := gallery_kept,
            ReefBookmark_table := bookmarks_kept\<rparr>)"


subsection \<open>Example data\<close>

definition reef_of :: "pk \<Rightarrow> string \<Rightarrow> string \<Rightarrow> string \<Rightarrow> string \<Rightarrow> string \<Rightarrow> rat \<Rightarrow> datetime \<Rightarrow> Reef" where
  "reef_of i nm rg co de hs ar cr =
     \<lparr>Reef_id = i, Reef_name = nm, Reef_region = rg, Reef_country = co,
      Reef_latitude = 0, Reef_longitude = 0, Reef_description = de, Reef_area_km2 = ar,
      Reef_depth_meters = 10, Reef_health_status = hs, Reef_created_at = cr,
      Reef_updated_at = cr, Reef_created_by = None\<rparr>"

definition reef1 :: Reef where
  "reef1 = reef_of 1 ''Apo Reef'' ''pacific'' ''Philippines'' ''Atoll-like reef'' ''good'' 34 100"

definition reef2 :: Reef where
  "reef2 = reef_of 2 ''Belize Barrier'' ''caribbean'' ''Belize'' ''Long barrier reef'' ''fair'' 960 200"

definition reef3 :: Reef where
  "reef3 = reef_of 3 ''Ningaloo'' ''indian'' ''Australia'' ''Fringing REEF'' ''good'' 5000 150"

definition noted_bookmark :: ReefBookmark where
  "noted_bookmark =
     \<lparr>ReefBookmark_id = 1, ReefBookmark_user = 7, ReefBookmark_reef = 1,
      ReefBookmark_created_at = 50, ReefBookmark_notes = ''dive here in May''\<rparr>"

definition state_bookmarked :: toggle_state where
  "state_bookmarked =
     \<lparr>reefs = [reef1, reef2], bookmarks = [noted_bookmark], next_bookmark_id = 2, flash = []\<rparr>"

definition state_empty :: toggle_state where
  "state_empty = \<lparr>reefs = [reef1, reef2], bookmarks = [], next_bookmark_id = 1, flash = []\<rparr>"

definition event_of ::
  "pk \<Rightarrow> pk \<Rightarrow> string \<Rightarrow> string \<Rightarrow> string \<Rightarrow> date \<Rightarrow> datetime \<Rightarrow> Event" where
  "event_of i r ty ti sv d cr =
     \<lparr>Event_id = i, Event_reef = r, Event_event_type = ty, Event_title = ti,
      Event_description = ''Seen on a survey dive'', Event_severity = sv, Event_event_date = d,
      Event_reported_by = Some 7, Event_created_at = cr, Event_updated_at = cr,
      Event_resolved = False, Event_notes = []\<rparr>"

definition event1 :: Event where
  "event1 = event_of 1 1 ''pollution'' ''Oil sheen'' ''high'' (2024, 3, 14) 300"

definition event2 :: Event where
  "event2 = event_of 2 1 ''bleaching'' ''Pale corals'' ''medium'' (2023, 8, 2) 310"

definition event3 :: Event where
  "event3 = event_of 3 2 ''sighting'' ''Staghorn colony'' ''low'' (2024, 3, 14) 320"

definition article_of ::
  "pk \<Rightarrow> string \<Rightarrow> string \<Rightarrow> string \<Rightarrow> bool \<Rightarrow> datetime \<Rightarrow> Article" where
  "article_of i ti sl ca pu cr =
     \<lparr>Article_id = i, Article_title = ti, Article_slug = sl, Article_category = ca,
      Article_content = ''Corals are animals.'', Article_excerpt = ''About corals'',
      Article_author = Some 7, Article_published = pu, Article_featured = False,
      Article_created_at = cr, Article_updated_at = cr\<rparr>"

definition article1 :: Article where
  "article1 = article_of 1 ''What is a reef'' ''what-is-a-reef'' ''education'' True 400"

definition article2 :: Article where
  "article2 = article_of 2 ''Draft on bleaching'' ''draft-on-bleaching'' ''research'' False 410"

definition article3 :: Article where
  "article3 = article_of 3 ''Coral gardening'' ''coral-gardening'' ''restoration'' True 420"

text \<open>A year conversion for the examples: it takes four-digit text of the 2020s.\<close>

definition example_year_lookup :: "string \<Rightarrow> error + int" where
  "example_year_lookup s =
     (case map_of [(''2023'', 2023), (''2024'', 2024), (''2025'', 2025)] s of
        None \<Rightarrow> Inl ValueError
      | Some y \<Rightarrow> Inr y)"


text \<open>Field cleaning for the examples: a title is required, the rest is taken as sent.\<close>

definition example_clean_pollution :: "post \<Rightarrow> string list + pollution_fields" where
  "example_clean_pollution POST =
     (case POST ''title'' of
        None \<Rightarrow> Inl [''title: This field is required.'']
      | Some t \<Rightarrow>
          if t = [] then Inl [''title: This field is required.'']
          else Inr \<lparr>pf_reef = 1, pf_title = t, pf_description = ''Slick near the mooring'',
                    pf_severity = (case POST ''severity'' of None \<Rightarrow> ''medium'' | Some s \<Rightarrow> s),
                    pf_event_date = (2024, 3, 14), pf_notes = []\<rparr>)"

definition example_clean_sighting :: "post \<Rightarrow> string list + sighting_fields" where
  "example_clean_sighting POST =
     (case POST ''title'' of
        None \<Rightarrow> Inl [''title: This field is required.'']
      | Some t \<Rightarrow>
          if t = [] then Inl [''title: This field is required.'']
          else Inr \<lparr>sf_reef = 2, sf_title = t, sf_description = ''Healthy branching coral'',
                    sf_event_date = (2024, 3, 14), sf_notes = []\<rparr>)"

definition example_post :: post where
  "example_post = [''title'' \<mapsto> ''Oil sheen'', ''severity'' \<mapsto> ''high'',
                   ''event_type'' \<mapsto> ''monitoring'']"

definition example_events :: event_store where
  "example_events = \<lparr>events = [], next_event_id = 1, notices = []\<rparr>"

definition upload_of :: "string \<Rightarrow> string \<Rightarrow> nat \<Rightarrow> upload_data" where
  "upload_of media_type name bytes =
     \<lparr>up_reef = Some 1, up_event = None, up_media_type = Some media_type,
      up_title = Some ''Survey'', up_description = [],
      up_file = Some \<lparr>file_name = name, file_size = bytes\<rparr>\<rparr>"

text \<open>The clock of the examples is in March 2024.\<close>

definition example_strftime :: "string \<Rightarrow> datetime \<Rightarrow> string" where
  "example_strftime pattern t =
     (if pattern = ''uploads/%Y/%m/'' then ''uploads/2024/03/'' else pattern)"

definition example_gallery :: gallery_store where
  "example_gallery = \<lparr>gallery = [], next_gallery_id = 1\<rparr>"

definition gallery_of :: "pk \<Rightarrow> pk option \<Rightarrow> pk option \<Rightarrow> ImageGallery" where
  "gallery_of i r e =
     \<lparr>ImageGallery_id = i, ImageGallery_reef = r, ImageGallery_event = e,
      ImageGallery_media_type = ''photo'', ImageGallery_title = ''Survey'',
      ImageGallery_description = [], ImageGallery_file = ''uploads/2024/03/survey.jpg'',
      ImageGallery_uploaded_by = Some 7, ImageGallery_uploaded_at = 500\<rparr>"

definition example_database :: database where
  "example_database =
     \<lparr>Reef_table = [reef1, reef2],
      Event_table = [event1, event2, event3],
      ImageGallery_table =
        [gallery_of 1 (Some 1) None, gallery_of 2 None (Some 2), gallery_of 3 (Some 2) (Some 3),
         gallery_of 4 None None],
      ReefBookmark_table = [noted_bookmark]\<rparr>"

section \<open>Bookmarks: proofs\<close>

lemma filter_key_le1:
  "distinct (map f xs) \<Longrightarrow> filter (\<lambda>x. f x = k) xs = [] \<or> (\<exists>b. filter (\<lambda>x. f x = k) xs = [b])"
proof (induction xs)
  case Nil
  then show ?case by simp
next
  case (Cons a xs)
  show ?case
  proof (cases "f a = k")
    case True
    with Cons.prems have "\<forall>x \<in> set xs. f x \<noteq> k" by (auto simp: image_iff)
    then have "filter (\<lambda>x. f x = k) xs = []" by (simp add: filter_empty_conv)
    with True show ?thesis by simp
  next
    case False
    with Cons show ?thesis by simp
  qed
qed

lemma bookmark_of_key:
  "bookmark_of u r = (\<lambda>b. (ReefBookmark_user b, ReefBookmark_reef b) = (u, r))"
  by (auto simp: bookmark_of_def fun_eq_iff)

lemma unique_filter:
  "unique_together bs \<Longrightarrow>
   filter (bookmark_of u r) bs = [] \<or> (\<exists>b. filter (bookmark_of u r) bs = [b])"
  unfolding unique_together_def bookmark_of_key by (rule filter_key_le1)

lemma delete_by_pk:
  assumes d: "distinct (map ReefBookmark_id bs)" and f: "filter (bookmark_of u r) bs = [b]"
  shows "filter (\<lambda>x. ReefBookmark_id x \<noteq> ReefBookmark_id b) bs = filter (\<lambda>x. \<not> bookmark_of u r x) bs"
proof (rule filter_cong[OF refl])
  fix x assume x: "x \<in> set bs"
  from f have bset: "set (filter (bookmark_of u r) bs) = {b}" by simp
  then have b: "b \<in> set bs" and bo: "bookmark_of u r b" by auto
  show "(ReefBookmark_id x \<noteq> ReefBookmark_id b) = (\<not> bookmark_of u r x)"
  proof (cases "x = b")
    case True
    with bo show ?thesis by simp
  next
    case False
    from d x b False have "ReefBookmark_id x \<noteq> ReefBookmark_id b"
      by (meson distinct_map inj_onD)
    moreover from bset x False have "\<not> bookmark_of u r x" by auto
    ultimately show ?thesis by simp
  qed
qed

lemma toggle_present:
  assumes ok: "bookmarks_ok s" and reef: "get_object_or_404 (reefs s) reef_id = Some reef"
    and ex: "filter (bookmark_of u (Reef_id reef)) (bookmarks s) \<noteq> []"
  shows "bookmark_toggle s (Some u) reef_id now =
     (s\<lparr>bookmarks := filter (\<lambda>x. \<not> bookmark_of u (Reef_id reef) x) (bookmarks s),
        flash := flash s @ [''Removed '' @ Reef_name reef @ '' from bookmarks'']\<rparr>,
      JsonResponse 200 [(''bookmarked'', JBool False),
        (''message'', JStr (''Removed '' @ Reef_name reef @ '' from bookmarks''))])"
proof -
  from ok have u: "unique_together (bookmarks s)" and d: "distinct (map ReefBookmark_id (bookmarks s))"
    by (simp_all add: bookmarks_ok_def)
  from unique_filter[OF u, of u "Reef_id reef"] ex
  obtain b where b: "filter (bookmark_of u (Reef_id reef)) (bookmarks s) = [b]" by auto
  show ?thesis
    by (simp add: bookmark_toggle_def reef get_or_create_def b delete_bookmark_def
        delete_by_pk[OF d b])
qed

lemma toggle_absent:
  assumes reef: "get_object_or_404 (reefs s) reef_id = Some reef"
    and ex: "filter (bookmark_of u (Reef_id reef)) (bookmarks s) = []"
  shows "bookmark_toggle s (Some u) reef_id now =
     (s\<lparr>bookmarks := bookmarks s @
           [\<lparr>ReefBookmark_id = next_bookmark_id s, ReefBookmark_user = u,
             ReefBookmark_reef = Reef_id reef, ReefBookmark_created_at = now,
             ReefBookmark_notes = []\<rparr>],
        next_bookmark_id := Suc (next_bookmark_id s),
        flash := flash s @ [''Added '' @ Reef_name reef @ '' to bookmarks'']\<rparr>,
      JsonResponse 200 [(''bookmarked'', JBool True),
        (''message'', JStr (''Added '' @ Reef_name reef @ '' to bookmarks''))])"
  by (simp add: bookmark_toggle_def reef get_or_create_def ex Let_def)


lemma get_object_id: "get_object_or_404 rs i = Some reef \<Longrightarrow> Reef_id reef = i"
  by (auto simp: get_object_or_404_def find_Some_iff)

lemma toggle_keeps_reefs: "reefs (fst (bookmark_toggle s user reef_id now)) = reefs s"
  by (auto simp: bookmark_toggle_def get_or_create_def delete_bookmark_def Let_def
      split: option.splits list.splits)

lemma toggle_keeps_ok:
  assumes ok: "bookmarks_ok s"
  shows "bookmarks_ok (fst (bookmark_toggle s user reef_id now))"
proof (cases user)
  case None
  with ok show ?thesis by (simp add: bookmark_toggle_def)
next
  case (Some u)
  show ?thesis
  proof (cases "get_object_or_404 (reefs s) reef_id")
    case None
    with ok Some show ?thesis by (simp add: bookmark_toggle_def)
  next
    case (Some reef)
    note reef = this
    show ?thesis
    proof (cases "filter (bookmark_of u (Reef_id reef)) (bookmarks s) = []")
      case True
      then have no: "\<forall>b \<in> set (bookmarks s). \<not> bookmark_of u (Reef_id reef) b"
        by (simp add: filter_empty_conv)
      have fresh: "next_bookmark_id s \<notin> ReefBookmark_id ` set (bookmarks s)"
        using ok by (auto simp: bookmarks_ok_def list_all_iff)
      have pair: "(u, Reef_id reef) \<notin> (\<lambda>b. (ReefBookmark_user b, ReefBookmark_reef b)) ` set (bookmarks s)"
        using no by (auto simp: bookmark_of_def)
      have lt: "list_all (\<lambda>b. ReefBookmark_id b < Suc (next_bookmark_id s)) (bookmarks s)"
        using ok by (auto simp: bookmarks_ok_def list_all_iff)
      show ?thesis
        using ok fresh pair lt
        by (simp add: toggle_absent[OF reef True] \<open>user = Some u\<close> bookmarks_ok_def
            unique_together_def)
    next
      case False
      have "bookmarks_ok (s\<lparr>bookmarks := filter (\<lambda>x. \<not> bookmark_of u (Reef_id reef) x) (bookmarks s),
        flash := flash s @ [''Removed '' @ Reef_name reef @ '' from bookmarks'']\<rparr>)"
        using ok by (auto simp: bookmarks_ok_def unique_together_def distinct_map_filter list_all_iff)
      then show ?thesis
        by (simp add: toggle_present[OF ok reef False] \<open>user = Some u\<close>)
    qed
  qed
qed

lemma toggles_keep_ok: "bookmarks_ok s \<Longrightarrow> bookmarks_ok (toggles s reqs)"
proof (induction reqs arbitrary: s)
  case Nil
  then show ?case by simp
next
  case (Cons q reqs)
  obtain user reef_id now where q: "q = (user, reef_id, now)" by (cases q)
  from Cons.prems have "bookmarks_ok (fst (bookmark_toggle s user reef_id now))"
    by (rule toggle_keeps_ok)
  then show ?case unfolding q by (simp add: Cons.IH)
qed

text \<open>
  C2. Starting from a bookmark table that satisfies the schema (unique ids, unique
  (user, reef) pairs), every sequence of toggle requests, by any users on any reef ids,
  leaves a table that satisfies it again: for every pair (u, r) at most one bookmark row
  exists afterwards. The requests are served one after the other.
\<close>
theorem bookmark_pair_never_duplicated:
  assumes "bookmarks_ok s"
  shows "bookmarks_ok (toggles s reqs) \<and>
         length (filter (bookmark_of u r) (bookmarks (toggles s reqs))) \<le> 1"
proof -
  have ok: "bookmarks_ok (toggles s reqs)" using assms by (rule toggles_keep_ok)
  then have "unique_together (bookmarks (toggles s reqs))" by (simp add: bookmarks_ok_def)
  from unique_filter[OF this, of u r] ok show ?thesis by auto
qed

theorem bookmark_pair_never_duplicated_witness:
  "bookmarks_ok state_empty \<and>
   bookmarks_ok (toggles state_empty
     [(Some 7, 1, 10), (Some 7, 2, 11), (None, 2, 12), (Some 8, 1, 13), (Some 7, 9, 14),
      (Some 7, 1, 15), (Some 7, 1, 16)]) \<and>
   length (filter (bookmark_of 7 1) (bookmarks (toggles state_empty
     [(Some 7, 1, 10), (Some 7, 2, 11), (None, 2, 12), (Some 8, 1, 13), (Some 7, 9, 14),
      (Some 7, 1, 15), (Some 7, 1, 16)]))) \<le> 1 \<and>
   map (\<lambda>b. (ReefBookmark_id b, ReefBookmark_user b, ReefBookmark_reef b))
     (bookmarks (toggles state_empty
       [(Some 7, 1, 10), (Some 7, 2, 11), (None, 2, 12), (Some 8, 1, 13), (Some 7, 9, 14),
        (Some 7, 1, 15), (Some 7, 1, 16)])) = [(2, 7, 2), (3, 8, 1), (4, 7, 1)]"
proof -
  let ?reqs = "[(Some 7, 1, 10), (Some 7, 2, 11), (None, 2, 12), (Some 8, 1, 13), (Some 7, 9, 14),
      (Some 7, 1, 15), (Some 7, 1, 16)]"
  have h: "bookmarks_ok state_empty"
    by (simp add: bookmarks_ok_def state_empty_def unique_together_def)
  have v: "map (\<lambda>b. (ReefBookmark_id b, ReefBookmark_user b, ReefBookmark_reef b))
     (bookmarks (toggles state_empty ?reqs)) = [(2, 7, 2), (3, 8, 1), (4, 7, 1)]"
    by code_simp
  from bookmark_pair_never_duplicated[OF h, of ?reqs 7 1] h v
  show ?thesis by blast
qed

lemma pairs_after_recreate:
  assumes "b \<in> set bs" "bookmark_of u r b"
  shows "set (map (\<lambda>b. (ReefBookmark_user b, ReefBookmark_reef b))
            (filter (\<lambda>x. \<not> bookmark_of u r x) bs)) \<union> {(u, r)} =
         set (map (\<lambda>b. (ReefBookmark_user b, ReefBookmark_reef b)) bs)"
  using assms by (auto simp: bookmark_of_def image_iff)

lemma toggle_twice_present:
  assumes ok: "bookmarks_ok s" and reef: "get_object_or_404 (reefs s) reef_id = Some reef"
    and ex: "filter (bookmark_of u (Reef_id reef)) (bookmarks s) \<noteq> []"
  shows "bookmarks (toggle_twice s u reef_id now now') =
         filter (\<lambda>x. \<not> bookmark_of u (Reef_id reef) x) (bookmarks s) @
           [\<lparr>ReefBookmark_id = next_bookmark_id s, ReefBookmark_user = u,
             ReefBookmark_reef = Reef_id reef, ReefBookmark_created_at = now',
             ReefBookmark_notes = []\<rparr>]"
proof -
  let ?s1 = "s\<lparr>bookmarks := filter (\<lambda>x. \<not> bookmark_of u (Reef_id reef) x) (bookmarks s),
        flash := flash s @ [''Removed '' @ Reef_name reef @ '' from bookmarks'']\<rparr>"
  have r1: "get_object_or_404 (reefs ?s1) reef_id = Some reef" using reef by simp
  have e1: "filter (bookmark_of u (Reef_id reef)) (bookmarks ?s1) = []" by simp
  show ?thesis
    unfolding toggle_twice_def toggle_present[OF ok reef ex] fst_conv toggle_absent[OF r1 e1]
    by simp
qed

lemma toggle_twice_absent:
  assumes ok: "bookmarks_ok s" and reef: "get_object_or_404 (reefs s) reef_id = Some reef"
    and ex: "filter (bookmark_of u (Reef_id reef)) (bookmarks s) = []"
  shows "bookmarks (toggle_twice s u reef_id now now') = bookmarks s"
proof -
  let ?b = "\<lparr>ReefBookmark_id = next_bookmark_id s, ReefBookmark_user = u,
             ReefBookmark_reef = Reef_id reef, ReefBookmark_created_at = now,
             ReefBookmark_notes = []\<rparr>"
  let ?s1 = "s\<lparr>bookmarks := bookmarks s @ [?b],
        next_bookmark_id := Suc (next_bookmark_id s),
        flash := flash s @ [''Added '' @ Reef_name reef @ '' to bookmarks'']\<rparr>"
  have s1: "fst (bookmark_toggle s (Some u) reef_id now) = ?s1"
    by (simp add: toggle_absent[OF reef ex])
  have ok1: "bookmarks_ok ?s1" using toggle_keeps_ok[OF ok, of "Some u" reef_id now] s1 by simp
  have r1: "get_object_or_404 (reefs ?s1) reef_id = Some reef" using reef by simp
  have e1: "filter (bookmark_of u (Reef_id reef)) (bookmarks ?s1) \<noteq> []"
    by (simp add: bookmark_of_def)
  have "filter (\<lambda>x. \<not> bookmark_of u (Reef_id reef) x) (bookmarks s) = bookmarks s"
    using ex by (simp add: filter_empty_conv filter_id_conv)
  then show ?thesis
    unfolding toggle_twice_def s1 toggle_present[OF ok1 r1 e1]
    by (simp add: bookmark_of_def)
qed

text \<open>
  C1 (amended). For an authenticated user u and an existing reef: when a bookmark of
  (u, reef) exists the toggle removes it, leaves every other row as it was and answers
  bookmarked = False; when none exists it appends exactly one new row for (u, reef) and
  answers bookmarked = True, and a second toggle then restores the table row for row.
  From any starting state two toggles restore the set of bookmarked (user, reef) pairs.
\<close>
theorem bookmark_toggle_transitions:
  assumes ok: "bookmarks_ok s" and reef: "get_object_or_404 (reefs s) reef_id = Some reef"
  shows
    "((\<exists>b \<in> set (bookmarks s). bookmark_of u reef_id b) \<longrightarrow>
        bookmark_toggle s (Some u) reef_id now =
          (s\<lparr>bookmarks := filter (\<lambda>x. \<not> bookmark_of u reef_id x) (bookmarks s),
             flash := flash s @ [''Removed '' @ Reef_name reef @ '' from bookmarks'']\<rparr>,
           JsonResponse 200 [(''bookmarked'', JBool False),
             (''message'', JStr (''Removed '' @ Reef_name reef @ '' from bookmarks''))])) \<and>
     (\<not> (\<exists>b \<in> set (bookmarks s). bookmark_of u reef_id b) \<longrightarrow>
        bookmark_toggle s (Some u) reef_id now =
          (s\<lparr>bookmarks := bookmarks s @
                [\<lparr>ReefBookmark_id = next_bookmark_id s, ReefBookmark_user = u,
                  ReefBookmark_reef = reef_id, ReefBookmark_created_at = now,
                  ReefBookmark_notes = []\<rparr>],
             next_bookmark_id := Suc (next_bookmark_id s),
             flash := flash s @ [''Added '' @ Reef_name reef @ '' to bookmarks'']\<rparr>,
           JsonResponse 200 [(''bookmarked'', JBool True),
             (''message'', JStr (''Added '' @ Reef_name reef @ '' to bookmarks''))]) \<and>
        bookmarks (toggle_twice s u reef_id now now') = bookmarks s) \<and>
     bookmarked_pairs (toggle_twice s u reef_id now now') = bookmarked_pairs s"
proof -
  have id: "Reef_id reef = reef_id" using reef by (rule get_object_id)
  have ex_iff: "(\<exists>b \<in> set (bookmarks s). bookmark_of u reef_id b) \<longleftrightarrow>
                filter (bookmark_of u (Reef_id reef)) (bookmarks s) \<noteq> []"
    by (simp add: id filter_empty_conv)
  show ?thesis
  proof (cases "filter (bookmark_of u (Reef_id reef)) (bookmarks s) = []")
    case True
    have "bookmarked_pairs (toggle_twice s u reef_id now now') = bookmarked_pairs s"
      by (simp add: bookmarked_pairs_def toggle_twice_absent[OF ok reef True])
    with True show ?thesis
      using toggle_absent[OF reef True, of now] toggle_twice_absent[OF ok reef True, of now now']
      by (simp add: ex_iff id)
  next
    case False
    then obtain b where b: "b \<in> set (bookmarks s)" "bookmark_of u (Reef_id reef) b"
      using ex_iff id by auto
    have "bookmarked_pairs (toggle_twice s u reef_id now now') = bookmarked_pairs s"
      using pairs_after_recreate[OF b]
      by (simp add: bookmarked_pairs_def toggle_twice_present[OF ok reef False])
    with False show ?thesis
      using toggle_present[OF ok reef False, of now]
      by (simp add: ex_iff id)
  qed
qed

theorem bookmark_toggle_transitions_witness:
  "bookmarks_ok state_bookmarked \<and>
   get_object_or_404 (reefs state_bookmarked) 1 = Some reef1 \<and>
   (\<exists>b \<in> set (bookmarks state_bookmarked). bookmark_of 7 1 b) \<and>
   bookmark_toggle state_bookmarked (Some 7) 1 60 =
     (state_bookmarked\<lparr>bookmarks := [], flash := [''Removed Apo Reef from bookmarks'']\<rparr>,
      JsonResponse 200 [(''bookmarked'', JBool False),
        (''message'', JStr ''Removed Apo Reef from bookmarks'')]) \<and>
   bookmarked_pairs (toggle_twice state_bookmarked 7 1 60 61) = {(7, 1)}"
proof -
  have h1: "bookmarks_ok state_bookmarked"
    by (simp add: bookmarks_ok_def state_bookmarked_def unique_together_def noted_bookmark_def)
  have h2: "get_object_or_404 (reefs state_bookmarked) 1 = Some reef1"
    by (simp add: get_object_or_404_def state_bookmarked_def reef1_def reef_of_def)
  have h3: "\<exists>b \<in> set (bookmarks state_bookmarked). bookmark_of 7 1 b"
    by (simp add: state_bookmarked_def noted_bookmark_def bookmark_of_def)
  have f: "filter (\<lambda>x. \<not> bookmark_of 7 1 x) (bookmarks state_bookmarked) = []"
    by (simp add: state_bookmarked_def noted_bookmark_def bookmark_of_def)
  have n: "Reef_name reef1 = ''Apo Reef''" by (simp add: reef1_def reef_of_def)
  have p: "bookmarked_pairs state_bookmarked = {(7, 1)}"
    by (simp add: bookmarked_pairs_def state_bookmarked_def noted_bookmark_def)
  have fl: "flash state_bookmarked = []" by (simp add: state_bookmarked_def)
  from bookmark_toggle_transitions[OF h1 h2, of 7 60 61] h1 h2 h3
  show ?thesis by (simp add: f[simplified] n p[simplified] fl)
qed

text \<open>
  Two toggles on an existing bookmark do not give the stored row back: the row that is
  created anew has a fresh id and blank notes.
\<close>

theorem toggle_twice_loses_notes:
  "bookmarks (toggle_twice state_bookmarked 7 1 50 50) =
     [\<lparr>ReefBookmark_id = 2, ReefBookmark_user = 7, ReefBookmark_reef = 1,
       ReefBookmark_created_at = 50, ReefBookmark_notes = []\<rparr>] \<and>
   bookmarks (toggle_twice state_bookmarked 7 1 50 50) \<noteq> bookmarks state_bookmarked"
  by (simp add: toggle_twice_def bookmark_toggle_def get_object_or_404_def get_or_create_def
      delete_bookmark_def state_bookmarked_def noted_bookmark_def reef1_def reef2_def reef_of_def
      bookmark_of_def Let_def)

text \<open>
  C3. An anonymous request changes nothing (neither the tables nor the queued messages)
  and is answered with status 401 and the body {error: ''Authentication required''}. An
  authenticated request on an existing reef, over a bookmark table with unique
  (user, reef) pairs, is answered with status 200 and a body {bookmarked: bool,
  message: string}.
\<close>
theorem bookmark_toggle_responses:
  "bookmark_toggle s None reef_id now =
     (s, JsonResponse 401 [(''error'', JStr ''Authentication required'')]) \<and>
   (unique_together (bookmarks s) \<longrightarrow> get_object_or_404 (reefs s) reef_id \<noteq> None \<longrightarrow>
     (\<exists>b m. snd (bookmark_toggle s (Some u) reef_id now) =
        JsonResponse 200 [(''bookmarked'', JBool b), (''message'', JStr m)]))"
proof -
  have "\<exists>b m. snd (bookmark_toggle s (Some u) reef_id now) =
        JsonResponse 200 [(''bookmarked'', JBool b), (''message'', JStr m)]"
    if u: "unique_together (bookmarks s)" and r: "get_object_or_404 (reefs s) reef_id = Some reef"
    for reef
    using unique_filter[OF u, of u "Reef_id reef"]
    by (auto simp: bookmark_toggle_def r get_or_create_def Let_def)
  then show ?thesis by (auto simp: bookmark_toggle_def)
qed

theorem bookmark_toggle_responses_witness:
  "bookmark_toggle state_bookmarked None 1 60 =
     (state_bookmarked, JsonResponse 401 [(''error'', JStr ''Authentication required'')]) \<and>
   unique_together (bookmarks state_bookmarked) \<and>
   get_object_or_404 (reefs state_bookmarked) 1 \<noteq> None \<and>
   (\<exists>b m. snd (bookmark_toggle state_bookmarked (Some 7) 1 60) =
        JsonResponse 200 [(''bookmarked'', JBool b), (''message'', JStr m)])"
proof -
  have h1: "unique_together (bookmarks state_bookmarked)"
    by (simp add: state_bookmarked_def unique_together_def)
  have h2: "get_object_or_404 (reefs state_bookmarked) 1 \<noteq> None"
    by (simp add: get_object_or_404_def state_bookmarked_def reef1_def reef_of_def)
  from bookmark_toggle_responses[of state_bookmarked 1 60 7] h1 h2
  show ?thesis by blast
qed

section \<open>Recently viewed reefs: proofs\<close>

lemma take_remove1_take: "take n (remove1 x (take (Suc n) xs)) = take n (remove1 x xs)"
proof (induction xs arbitrary: n)
  case Nil
  then show ?case by simp
next
  case (Cons a xs)
  show ?case
  proof (cases n)
    case 0
    then show ?thesis by simp
  next
    case (Suc m)
    then show ?thesis using Cons.IH[of m] by (simp add: min_def)
  qed
qed

lemma view_step:
  "recently_viewed (ReefDetailView_get_context_data sess reef) =
     take 10 (Reef_id reef #
       (if Reef_id reef \<in> set (recently_viewed sess)
        then remove1 (Reef_id reef) (recently_viewed sess) else recently_viewed sess))"
  by (cases "viewed_reefs sess")
     (simp_all add: ReefDetailView_get_context_data_def recently_viewed_def Let_def)

lemma view_step_take:
  assumes "recently_viewed sess = take 10 ds"
  shows "recently_viewed (ReefDetailView_get_context_data sess reef) =
           take 10 (Reef_id reef # remove1 (Reef_id reef) ds)"
proof -
  let ?x = "Reef_id reef"
  have nine: "take 9 (remove1 ?x (take 10 ds)) = take 9 (remove1 ?x ds)"
    using take_remove1_take[of 9 ?x ds] by simp
  show ?thesis
  proof (cases "?x \<in> set (take 10 ds)")
    case True
    then show ?thesis by (simp add: view_step assms nine)
  next
    case False
    then have "remove1 ?x (take 10 ds) = take 10 ds" by (simp add: remove1_idem)
    with nine have "take 9 (remove1 ?x ds) = take 9 ds" by (simp add: min_def)
    with False show ?thesis by (simp add: view_step assms)
  qed
qed

lemma detail_views_snoc:
  "detail_views sess (rs @ [reef]) = ReefDetailView_get_context_data (detail_views sess rs) reef"
  by (induction rs arbitrary: sess) simp_all

lemma rev_remdups_snoc: "rev (remdups (xs @ [x])) = x # remove1 x (rev (remdups xs))"
proof -
  have "remdups (xs @ [x]) = filter (\<lambda>y. y \<noteq> x) (remdups xs) @ [x]"
    by (induction xs) auto
  then have "rev (remdups (xs @ [x])) = x # filter (\<lambda>y. y \<noteq> x) (rev (remdups xs))"
    by (simp add: rev_filter)
  moreover have "filter (\<lambda>y. y \<noteq> x) (rev (remdups xs)) = remove1 x (rev (remdups xs))"
    by (simp add: distinct_remove1_removeAll removeAll_filter_not_eq eq_commute)
  ultimately show ?thesis by simp
qed

lemma detail_views_recent:
  "recently_viewed (detail_views new_session rs) = take 10 (rev (remdups (map Reef_id rs)))"
proof (induction rs rule: rev_induct)
  case Nil
  then show ?case by (simp add: recently_viewed_def new_session_def)
next
  case (snoc reef rs)
  show ?case
    unfolding detail_views_snoc
    by (simp add: view_step_take[OF snoc.IH] rev_remdups_snoc)
qed

text \<open>
  C4. After any sequence of detail views in a new session the recently-viewed list is the
  first ten of the viewed reef ids, each once, ordered from the latest view back; so it
  has at most ten entries, no duplicates, and starts with the reef viewed last. One view
  puts the reef in front (taking it out of its old place if it was listed) and keeps ten
  entries. Viewing R1, R2, R1, R3 (three different reefs) gives [R3, R1, R2].
\<close>

theorem recently_viewed_list:
  "recently_viewed (detail_views new_session rs) = take 10 (rev (remdups (map Reef_id rs))) \<and>
   length (recently_viewed (detail_views new_session rs)) \<le> 10 \<and>
   distinct (recently_viewed (detail_views new_session rs)) \<and>
   (rs \<noteq> [] \<longrightarrow> hd (recently_viewed (detail_views new_session rs)) = Reef_id (last rs)) \<and>
   recently_viewed (ReefDetailView_get_context_data sess reef) =
     take 10 (Reef_id reef #
       (if Reef_id reef \<in> set (recently_viewed sess)
        then remove1 (Reef_id reef) (recently_viewed sess) else recently_viewed sess)) \<and>
   (distinct [Reef_id r1, Reef_id r2, Reef_id r3] \<longrightarrow>
     recently_viewed (detail_views new_session [r1, r2, r1, r3]) =
       [Reef_id r3, Reef_id r1, Reef_id r2])"
proof -
  let ?v = "recently_viewed (detail_views new_session rs)"
  have eq: "?v = take 10 (rev (remdups (map Reef_id rs)))" by (rule detail_views_recent)
  have len: "length ?v \<le> 10" by (simp add: eq)
  have dis: "distinct ?v" unfolding eq by (rule distinct_take) simp
  have front: "hd ?v = Reef_id (last rs)" if "rs \<noteq> []"
  proof -
    from that obtain ys y where rs: "rs = ys @ [y]" by (meson rev_exhaust)
    have "rev (remdups (map Reef_id rs)) =
            Reef_id y # remove1 (Reef_id y) (rev (remdups (map Reef_id ys)))"
      unfolding rs map_append list.map by (rule rev_remdups_snoc)
    with eq have "?v = take 10 (Reef_id y # remove1 (Reef_id y) (rev (remdups (map Reef_id ys))))"
      by simp
    then show ?thesis by (simp add: rs)
  qed
  have ex: "recently_viewed (detail_views new_session [r1, r2, r1, r3]) =
       [Reef_id r3, Reef_id r1, Reef_id r2]" if "distinct [Reef_id r1, Reef_id r2, Reef_id r3]"
    using that unfolding detail_views_recent by auto
  from eq len dis front ex view_step show ?thesis by blast
qed

theorem recently_viewed_list_witness:
  "recently_viewed (detail_views new_session [reef1, reef2, reef1, reef3]) = [3, 1, 2] \<and>
   length (recently_viewed (detail_views new_session [reef1, reef2, reef1, reef3])) \<le> 10 \<and>
   distinct [Reef_id reef1, Reef_id reef2, Reef_id reef3] \<and>
   hd (recently_viewed (detail_views new_session [reef1, reef2, reef1, reef3])) = 3 \<and>
   recently_viewed (detail_views new_session
     (map (\<lambda>i. reef1\<lparr>Reef_id := i\<rparr>) [1, 2, 3, 4, 5, 6, 7, 8, 9, 10, 11, 12, 5]))
     = [5, 12, 11, 10, 9, 8, 7, 6, 4, 3]"
proof -
  have d: "distinct [Reef_id reef1, Reef_id reef2, Reef_id reef3]"
    by (simp add: reef1_def reef2_def reef3_def reef_of_def)
  have i: "Reef_id reef1 = 1" "Reef_id reef2 = 2" "Reef_id reef3 = 3"
    by (simp_all add: reef1_def reef2_def reef3_def reef_of_def)
  have t: "recently_viewed (detail_views new_session
     (map (\<lambda>i. reef1\<lparr>Reef_id := i\<rparr>) [1, 2, 3, 4, 5, 6, 7, 8, 9, 10, 11, 12, 5]))
     = [5, 12, 11, 10, 9, 8, 7, 6, 4, 3]"
    by code_simp
  from recently_viewed_list[of "[reef1, reef2, reef1, reef3]" new_session reef1 reef1 reef2 reef3] d
  have "recently_viewed (detail_views new_session [reef1, reef2, reef1, reef3]) =
       [Reef_id reef3, Reef_id reef1, Reef_id reef2]"
    and "length (recently_viewed (detail_views new_session [reef1, reef2, reef1, reef3])) \<le> 10"
    by blast+
  with d t show ?thesis by (simp add: i)
qed


section \<open>Querysets: proofs\<close>

lemma set_insort_by: "set (insort_by le x ys) = insert x (set ys)"
  by (induction ys) auto

lemma set_sort_by: "set (sort_by le xs) = set xs"
  unfolding sort_by_def by (induction xs) (simp_all add: set_insort_by)

lemma sorted_insort_by:
  assumes tp: "total_preorder le" and s: "sorted_wrt le ys"
  shows "sorted_wrt le (insort_by le x ys)"
  using s
proof (induction ys)
  case Nil
  then show ?case by simp
next
  case (Cons y ys)
  from tp have total: "\<And>a b. le a b \<or> le b a" and trans: "\<And>a b c. le a b \<Longrightarrow> le b c \<Longrightarrow> le a c"
    unfolding total_preorder_def by blast+
  show ?case
  proof (cases "le x y")
    case True
    have "\<forall>z \<in> set ys. le x z" using Cons.prems True trans by auto
    with True Cons.prems show ?thesis by simp
  next
    case False
    then have "le y x" using total by blast
    with False Cons show ?thesis by (auto simp: set_insort_by)
  qed
qed

lemma sorted_sort_by: "total_preorder le \<Longrightarrow> sorted_wrt le (sort_by le xs)"
  unfolding sort_by_def by (induction xs) (simp_all add: sorted_insort_by)

lemma lex_le_first: "lex_le (le # les) a b \<Longrightarrow> le a b"
  by (simp split: if_splits)

lemma total_preorder_lex_le:
  "list_all total_preorder les \<Longrightarrow> total_preorder (lex_le les)"
proof (induction les)
  case Nil
  then show ?case by (simp add: total_preorder_def)
next
  case (Cons le les)
  then have tp: "total_preorder le" and ih: "total_preorder (lex_le les)" by simp_all
  from tp have total: "\<And>a b. le a b \<or> le b a" and trans: "\<And>a b c. le a b \<Longrightarrow> le b c \<Longrightarrow> le a c"
    unfolding total_preorder_def by blast+
  from ih have total': "\<And>a b. lex_le les a b \<or> lex_le les b a"
    and trans': "\<And>a b c. lex_le les a b \<Longrightarrow> lex_le les b c \<Longrightarrow> lex_le les a c"
    unfolding total_preorder_def by blast+
  have t: "lex_le (le # les) a b \<or> lex_le (le # les) b a" for a b
    using total[of a b] total'[of a b] by auto
  have tr: "lex_le (le # les) a c" if ab: "lex_le (le # les) a b" and bc: "lex_le (le # les) b c"
    for a b c
  proof -
    have 1: "le a b" using ab by (rule lex_le_first)
    have 2: "le b c" using bc by (rule lex_le_first)
    have 3: "le a c" using 1 2 trans by blast
    show ?thesis
    proof (cases "le c a")
      case True
      have "le c b" using True 1 trans by blast
      moreover have "le b a" using 2 True trans by blast
      ultimately have "lex_le les a b" "lex_le les b c" using ab bc 1 2 by simp_all
      then have "lex_le les a c" using trans' by blast
      with True 3 show ?thesis by simp
    next
      case False
      with 3 show ?thesis by simp
    qed
  qed
  from t tr show ?case unfolding total_preorder_def by blast
qed

lemma total_preorder_by_key: "total_preorder (by_key k)"
  unfolding total_preorder_def by_key_def by auto

lemma total_preorder_descending: "total_preorder le \<Longrightarrow> total_preorder (descending le)"
  unfolding total_preorder_def descending_def by blast

lemma ascending_by_iff: "ascending_by k rows = sorted_wrt (by_key k) rows"
  unfolding ascending_by_def by_key_def by (simp add: sorted_map)

lemma descending_by_iff: "descending_by k rows = sorted_wrt (descending (by_key k)) rows"
  unfolding descending_by_def by_key_def descending_def
  by (simp add: sorted_wrt_rev sorted_wrt_map flip: rev_map)

text \<open>Evaluating a queryset whose terms resolve: the rows, sorted by the first term.\<close>

lemma qs_eval_sorted:
  assumes r: "resolve_terms cols (qs_ordering qs) = Some (le # les)"
    and tp: "list_all total_preorder (le # les)"
  shows "\<exists>rows. qs_eval cols qs = Inr rows \<and> sorted_wrt le rows \<and> set rows = set (qs_rows qs)"
proof -
  have "sorted_wrt (lex_le (le # les)) (sort_by (lex_le (le # les)) (qs_rows qs))"
    by (rule sorted_sort_by) (rule total_preorder_lex_le[OF tp])
  then have "sorted_wrt le (sort_by (lex_le (le # les)) (qs_rows qs))"
    by (rule sorted_wrt_mono_rel[rotated]) (rule lex_le_first)
  then show ?thesis by (simp add: qs_eval_def r set_sort_by)
qed


section \<open>Listings: proofs\<close>

lemma columns_total:
  "Reef_columns f = Some le \<Longrightarrow> total_preorder le"
  "Article_columns f = Some le2 \<Longrightarrow> total_preorder le2"
  "Event_columns f = Some le3 \<Longrightarrow> total_preorder le3"
  by (auto simp: Reef_columns_def Article_columns_def Event_columns_def total_preorder_by_key
      split: if_splits)

lemma order_term_total:
  assumes c: "\<And>f le'. cols f = Some le' \<Longrightarrow> total_preorder le'"
    and t: "order_term cols t = Some le"
  shows "total_preorder le"
  using t c by (auto simp: order_term_def total_preorder_descending split: list.splits if_splits)

lemma resolve_terms_total:
  assumes c: "\<And>f le'. cols f = Some le' \<Longrightarrow> total_preorder le'"
  shows "resolve_terms cols ts = Some les \<Longrightarrow> list_all total_preorder les"
proof (induction ts arbitrary: les)
  case Nil
  then show ?case by simp
next
  case (Cons t ts)
  then show ?case
    using order_term_total[of cols t, OF c] by (auto split: option.splits)
qed

lemma reef_ordering:
  "qs_ordering (fst (ReefListView_get_queryset table GET sess)) =
     (if GET_get GET ''sort'' ''-created_at'' \<in> set Reef_sort_keys
      then [GET_get GET ''sort'' ''-created_at''] else [''-created_at''])"
  by (simp add: ReefListView_get_queryset_def Let_def qs_filter_def qs_order_by_def Reef_objects_def)

lemma reef_rows:
  "qs_rows (fst (ReefListView_get_queryset table GET sess)) =
     filter (\<lambda>r. (GET_get GET ''search'' [] \<noteq> [] \<longrightarrow>
                     icontains (GET_get GET ''search'' []) (Reef_name r) \<or>
                     icontains (GET_get GET ''search'' []) (Reef_country r) \<or>
                     icontains (GET_get GET ''search'' []) (Reef_description r)) \<and>
                  (GET_get GET ''region'' [] \<noteq> [] \<longrightarrow> Reef_region r = GET_get GET ''region'' []) \<and>
                  (GET_get GET ''health'' [] \<noteq> [] \<longrightarrow> Reef_health_status r = GET_get GET ''health'' []))
            table"
  by (auto simp: ReefListView_get_queryset_def Let_def qs_filter_def qs_order_by_def
      Reef_objects_def intro!: filter_cong)

lemma reef_terms:
  "\<exists>le les. resolve_terms Reef_columns (qs_ordering (fst (ReefListView_get_queryset table GET sess)))
              = Some (le # les) \<and>
            (\<forall>rows. sorted_wrt le rows \<longrightarrow> Reef_listing_order (GET ''sort'') rows)"
  unfolding reef_ordering
  by (cases "GET ''sort''")
     (auto simp: GET_get_def Reef_sort_keys_def Reef_listing_order_def order_term_def Reef_columns_def
       ascending_by_iff descending_by_iff)

lemma reef_list_ordered:
  "\<exists>rows. reef_list table GET sess = Inr rows \<and> Reef_listing_order (GET ''sort'') rows \<and>
          set rows = set (qs_rows (fst (ReefListView_get_queryset table GET sess)))"
proof -
  let ?qs = "fst (ReefListView_get_queryset table GET sess)"
  from reef_terms[of table GET sess] obtain le les
    where r: "resolve_terms Reef_columns (qs_ordering ?qs) = Some (le # les)"
      and m: "\<And>rows. sorted_wrt le rows \<Longrightarrow> Reef_listing_order (GET ''sort'') rows"
    by blast
  have tp: "list_all total_preorder (le # les)"
    using resolve_terms_total[OF columns_total(1) r] .
  from qs_eval_sorted[OF r tp] m show ?thesis unfolding reef_list_def by blast
qed

lemma article_ordering:
  "qs_ordering (ArticleListView_get_queryset table GET) =
     (if GET_get GET ''sort'' ''-created_at'' \<in> set Article_sort_keys
      then [GET_get GET ''sort'' ''-created_at''] else [''-created_at''])"
  by (simp add: ArticleListView_get_queryset_def Let_def qs_filter_def qs_order_by_def
      Article_objects_def)

lemma article_rows:
  "qs_rows (ArticleListView_get_queryset table GET) =
     filter (\<lambda>a. Article_published a \<and>
                  (GET_get GET ''search'' [] \<noteq> [] \<longrightarrow>
                     icontains (GET_get GET ''search'' []) (Article_title a) \<or>
                     icontains (GET_get GET ''search'' []) (Article_content a) \<or>
                     icontains (GET_get GET ''search'' []) (Article_excerpt a)) \<and>
                  (GET_get GET ''category'' [] \<noteq> [] \<longrightarrow>
                     Article_category a = GET_get GET ''category'' []))
            table"
  by (auto simp: ArticleListView_get_queryset_def Let_def qs_filter_def qs_order_by_def
      Article_objects_def intro!: filter_cong)

lemma article_terms:
  "\<exists>le les. resolve_terms Article_columns (qs_ordering (ArticleListView_get_queryset table GET))
              = Some (le # les) \<and>
            (\<forall>rows. sorted_wrt le rows \<longrightarrow> Article_listing_order (GET ''sort'') rows)"
  unfolding article_ordering
  by (cases "GET ''sort''")
     (auto simp: GET_get_def Article_sort_keys_def Article_listing_order_def order_term_def
       Article_columns_def ascending_by_iff descending_by_iff)

lemma article_list_ordered:
  "\<exists>rows. article_list table GET = Inr rows \<and> Article_listing_order (GET ''sort'') rows \<and>
          set rows = set (qs_rows (ArticleListView_get_queryset table GET))"
proof -
  let ?qs = "ArticleListView_get_queryset table GET"
  from article_terms[of table GET] obtain le les
    where r: "resolve_terms Article_columns (qs_ordering ?qs) = Some (le # les)"
      and m: "\<And>rows. sorted_wrt le rows \<Longrightarrow> Article_listing_order (GET ''sort'') rows"
    by blast
  have tp: "list_all total_preorder (le # les)"
    using resolve_terms_total[OF columns_total(2) r] .
  from qs_eval_sorted[OF r tp] m show ?thesis unfolding article_list_def by blast
qed

lemma event_queryset_raises:
  "year_error year_lookup GET = Some err \<Longrightarrow>
   EventListView_get_queryset year_lookup table GET = Inl err"
  by (auto simp: year_error_def EventListView_get_queryset_def Let_def split: if_splits sum.splits)

lemma event_queryset_ordering:
  "year_error year_lookup GET = None \<Longrightarrow>
   \<exists>qs. EventListView_get_queryset year_lookup table GET = Inr qs \<and>
        qs_ordering qs =
          (if GET_get GET ''sort'' ''-event_date'' \<in> set Event_sort_keys
           then [GET_get GET ''sort'' ''-event_date''] else [''-event_date'', ''-created_at''])"
  by (auto simp: year_error_def EventListView_get_queryset_def Let_def qs_filter_def
      qs_order_by_def Event_objects_def split: if_splits sum.splits)

lemma event_terms:
  "\<exists>le les. resolve_terms Event_columns
              (if GET_get GET ''sort'' ''-event_date'' \<in> set Event_sort_keys
               then [GET_get GET ''sort'' ''-event_date''] else [''-event_date'', ''-created_at''])
              = Some (le # les) \<and>
            (\<forall>rows. sorted_wrt le rows \<longrightarrow> Event_listing_order (GET ''sort'') rows)"
  by (cases "GET ''sort''")
     (auto simp: GET_get_def Event_sort_keys_def Event_listing_order_def order_term_def
       Event_columns_def ascending_by_iff descending_by_iff)

lemma event_list_ordered:
  assumes "year_error year_lookup GET = None"
  shows "\<exists>rows. event_list year_lookup table GET = Inr rows \<and>
               Event_listing_order (GET ''sort'') rows"
proof -
  from event_queryset_ordering[OF assms, of table] obtain qs
    where q: "EventListView_get_queryset year_lookup table GET = Inr qs"
      and o: "qs_ordering qs =
          (if GET_get GET ''sort'' ''-event_date'' \<in> set Event_sort_keys
           then [GET_get GET ''sort'' ''-event_date''] else [''-event_date'', ''-created_at''])"
    by blast
  from event_terms[of GET] obtain le les
    where r: "resolve_terms Event_columns (qs_ordering qs) = Some (le # les)"
      and m: "\<And>rows. sorted_wrt le rows \<Longrightarrow> Event_listing_order (GET ''sort'') rows"
    unfolding o by blast
  have tp: "list_all total_preorder (le # les)"
    using resolve_terms_total[OF columns_total(3) r] .
  from qs_eval_sorted[OF r tp] m show ?thesis unfolding event_list_def q by auto
qed

text \<open>
  The sort parameter by itself is handled as the allow-lists say. The reef and the article
  listing return rows for every request; the event listing returns rows unless the year
  filter raises. The rows are in the order of the sort key when \<open>sort\<close> is one of the
  listing's allowed keys (ascending for a field name, descending for a name with a
  leading minus), and in the listing's default order (latest \<open>created_at\<close> first for
  reefs and articles, latest \<open>event_date\<close> first for events) when \<open>sort\<close> is absent or
  any other text.
\<close>

lemma listing_sort_order:
  "(\<exists>rows. reef_list reef_table GET sess = Inr rows \<and> Reef_listing_order (GET ''sort'') rows) \<and>
   (\<exists>rows. article_list article_table GET = Inr rows \<and>
           Article_listing_order (GET ''sort'') rows) \<and>
   (case year_error year_lookup GET of
      Some err \<Rightarrow> event_list year_lookup event_table GET = Inl err
    | None \<Rightarrow> (\<exists>rows. event_list year_lookup event_table GET = Inr rows \<and>
                       Event_listing_order (GET ''sort'') rows))"
proof -
  have e: "case year_error year_lookup GET of
      Some err \<Rightarrow> event_list year_lookup event_table GET = Inl err
    | None \<Rightarrow> (\<exists>rows. event_list year_lookup event_table GET = Inr rows \<and>
                       Event_listing_order (GET ''sort'') rows)"
  proof (cases "year_error year_lookup GET")
    case None
    with event_list_ordered[OF None, of event_table] show ?thesis by simp
  next
    case (Some err)
    then show ?thesis by (simp add: event_list_def event_queryset_raises[OF Some])
  qed
  from reef_list_ordered[of reef_table GET sess] article_list_ordered[of article_table GET] e
  show ?thesis by blast
qed

lemma listing_sort_order_example:
  "reef_list [reef2, reef3, reef1] [''sort'' \<mapsto> ''name''] new_session = Inr [reef1, reef2, reef3] \<and>
   Reef_listing_order (Some ''name'') [reef1, reef2, reef3] \<and>
   article_list [article1, article2, article3] [''sort'' \<mapsto> ''name''] = Inr [article3, article1] \<and>
   Article_listing_order (Some ''name'') [article3, article1] \<and>
   event_list example_year_lookup [event1, event2, event3] [''sort'' \<mapsto> ''name'']
     = Inr [event3, event1, event2] \<and>
   Event_listing_order (Some ''name'') [event3, event1, event2]"
proof -
  let ?G = "[''sort'' \<mapsto> ''name'']"
  have r: "reef_list [reef2, reef3, reef1] ?G new_session = Inr [reef1, reef2, reef3]"
    by code_simp
  have a: "article_list [article1, article2, article3] ?G = Inr [article3, article1]"
    by code_simp
  have e: "event_list example_year_lookup [event1, event2, event3] ?G
             = Inr [event3, event1, event2]"
    by code_simp
  have y: "year_error example_year_lookup ?G = None"
    by (simp add: year_error_def GET_get_def)
  from listing_sort_order[of "[reef2, reef3, reef1]" ?G new_session
      "[article1, article2, article3]" example_year_lookup "[event1, event2, event3]"]
  show ?thesis unfolding r a e y by simp
qed

text \<open>
  C5 (the event listing falls short of it). The claim asks that a listing never errors
  when \<open>sort\<close> is absent or not allowed. \<open>EventListView.get_queryset\<close> hands the text
  of the \<open>year\<close> parameter to \<open>filter(event_date__year=year)\<close> without a check, unlike
  \<open>resolved\<close> and \<open>sort\<close> which it checks against their lists: for a request whose
  \<open>year\<close> is text that the year conversion rejects, the event listing answers with the
  conversion's error, whatever \<open>sort\<close> is, instead of rows in the default order.
\<close>

theorem event_list_raises_on_rejected_year:
  assumes "GET ''year'' = Some year" and "year \<noteq> []" and "year_lookup year = Inl err"
  shows "event_list year_lookup table GET = Inl err \<and>
         event_list year_lookup table (GET(''sort'' := sort_param)) = Inl err"
proof -
  have "year_error year_lookup GET = Some err"
    using assms by (simp add: year_error_def GET_get_def)
  moreover have "year_error year_lookup (GET(''sort'' := sort_param)) = Some err"
    using assms by (simp add: year_error_def GET_get_def)
  ultimately show ?thesis
    by (simp add: event_list_def event_queryset_raises)
qed

theorem event_list_raises_on_rejected_year_witness:
  "[''year'' \<mapsto> ''abc''] ''year'' = Some ''abc'' \<and>
   example_year_lookup ''abc'' = Inl ValueError \<and>
   event_list example_year_lookup [event1, event2, event3] [''year'' \<mapsto> ''abc'']
     = Inl ValueError \<and>
   event_list example_year_lookup [event1, event2, event3]
     [''year'' \<mapsto> ''abc'', ''sort'' \<mapsto> ''name''] = Inl ValueError \<and>
   event_list example_year_lookup [event1, event2, event3]
     [''year'' \<mapsto> ''abc'', ''sort'' \<mapsto> ''-event_date''] = Inl ValueError"
proof -
  have g: "[''year'' \<mapsto> ''abc''] ''year'' = Some ''abc''" by simp
  have n: "''abc'' \<noteq> []" by simp
  have r: "example_year_lookup ''abc'' = Inl ValueError"
    by (simp add: example_year_lookup_def)
  have 1: "event_list example_year_lookup [event1, event2, event3] [''year'' \<mapsto> ''abc'']
             = Inl ValueError \<and>
           event_list example_year_lookup [event1, event2, event3]
             [''year'' \<mapsto> ''abc'', ''sort'' \<mapsto> ''name''] = Inl ValueError"
    using event_list_raises_on_rejected_year[where GET = "[''year'' \<mapsto> ''abc'']"
        and year = "''abc''" and year_lookup = example_year_lookup and err = ValueError
        and table = "[event1, event2, event3]" and sort_param = "Some ''name''"] g n r
    by blast
  have 2: "event_list example_year_lookup [event1, event2, event3]
             [''year'' \<mapsto> ''abc'', ''sort'' \<mapsto> ''-event_date''] = Inl ValueError"
    using event_list_raises_on_rejected_year[where GET = "[''year'' \<mapsto> ''abc'']"
        and year = "''abc''" and year_lookup = example_year_lookup and err = ValueError
        and table = "[event1, event2, event3]" and sort_param = "Some ''-event_date''"] g n r
    by blast
  from 1 2 g r show ?thesis by blast
qed

lemma take_length_eq_iff: "take (length q) s = q \<longleftrightarrow> (\<exists>post. s = q @ post)"
proof
  assume "take (length q) s = q"
  then have "s = q @ drop (length q) s" by (metis append_take_drop_id)
  then show "\<exists>post. s = q @ post" ..
next
  assume "\<exists>post. s = q @ post"
  then show "take (length q) s = q" by auto
qed

lemma contains_iff: "contains q s \<longleftrightarrow> (\<exists>pre post. s = pre @ q @ post)"
proof (induction s)
  case Nil
  then show ?case by auto
next
  case (Cons c s)
  have "(\<exists>pre post. c # s = pre @ q @ post) \<longleftrightarrow>
        (\<exists>post. c # s = q @ post) \<or> (\<exists>pre post. s = pre @ q @ post)"
  proof
    assume "\<exists>pre post. c # s = pre @ q @ post"
    then obtain pre post where p: "c # s = pre @ q @ post" by blast
    show "(\<exists>post. c # s = q @ post) \<or> (\<exists>pre post. s = pre @ q @ post)"
    proof (cases pre)
      case Nil
      with p show ?thesis by auto
    next
      case (Cons d pre')
      with p have "s = pre' @ q @ post" by simp
      then show ?thesis by blast
    qed
  next
    assume "(\<exists>post. c # s = q @ post) \<or> (\<exists>pre post. s = pre @ q @ post)"
    then show "\<exists>pre post. c # s = pre @ q @ post"
    proof
      assume "\<exists>post. c # s = q @ post"
      then obtain post where "c # s = [] @ q @ post" by auto
      then show ?thesis by blast
    next
      assume "\<exists>pre post. s = pre @ q @ post"
      then obtain pre post where "c # s = (c # pre) @ q @ post" by auto
      then show ?thesis by blast
    qed
  qed
  with Cons.IH show ?case by (simp add: take_length_eq_iff del: take_Suc_Cons)
qed

lemma icontains_iff: "icontains q s \<longleftrightarrow> (\<exists>pre post. lower s = pre @ lower q @ post)"
  unfolding icontains_def by (rule contains_iff)

text \<open>
  C8. The reef listing returns exactly the reefs of the table that pass every filter the
  request carries: with a non-empty \<open>region\<close> and a non-empty \<open>health\<close> parameter every
  reef returned has that region and that health status, and with a non-empty \<open>search\<close>
  text every reef returned has the text, letter case ignored, inside its name, its
  country or its description. A reef of the table that passes all filters is returned.
\<close>

theorem reef_list_filters:
  "\<exists>rows. reef_list table GET sess = Inr rows \<and>
     (GET ''region'' = Some region \<and> region \<noteq> [] \<and> GET ''health'' = Some health \<and> health \<noteq> []
        \<longrightarrow> (\<forall>r \<in> set rows. Reef_region r = region \<and> Reef_health_status r = health)) \<and>
     (GET ''search'' = Some q \<and> q \<noteq> []
        \<longrightarrow> (\<forall>r \<in> set rows.
              (\<exists>pre post. lower (Reef_name r) = pre @ lower q @ post) \<or>
              (\<exists>pre post. lower (Reef_country r) = pre @ lower q @ post) \<or>
              (\<exists>pre post. lower (Reef_description r) = pre @ lower q @ post))) \<and>
     set rows =
       {r \<in> set table.
          (GET_get GET ''search'' [] \<noteq> [] \<longrightarrow>
             icontains (GET_get GET ''search'' []) (Reef_name r) \<or>
             icontains (GET_get GET ''search'' []) (Reef_country r) \<or>
             icontains (GET_get GET ''search'' []) (Reef_description r)) \<and>
          (GET_get GET ''region'' [] \<noteq> [] \<longrightarrow> Reef_region r = GET_get GET ''region'' []) \<and>
          (GET_get GET ''health'' [] \<noteq> [] \<longrightarrow> Reef_health_status r = GET_get GET ''health'' [])}"
proof -
  from reef_list_ordered[of table GET sess] obtain rows
    where l: "reef_list table GET sess = Inr rows"
      and s: "set rows = set (qs_rows (fst (ReefListView_get_queryset table GET sess)))"
    by blast
  have 1: "\<forall>r \<in> set rows. Reef_region r = region \<and> Reef_health_status r = health"
    if "GET ''region'' = Some region \<and> region \<noteq> [] \<and> GET ''health'' = Some health \<and> health \<noteq> []"
    using that unfolding s reef_rows by (simp add: GET_get_def)
  have 2: "\<forall>r \<in> set rows.
              (\<exists>pre post. lower (Reef_name r) = pre @ lower q @ post) \<or>
              (\<exists>pre post. lower (Reef_country r) = pre @ lower q @ post) \<or>
              (\<exists>pre post. lower (Reef_description r) = pre @ lower q @ post)"
    if "GET ''search'' = Some q \<and> q \<noteq> []"
    using that unfolding s reef_rows by (simp add: GET_get_def icontains_iff)
  have 3: "set rows =
       {r \<in> set table.
          (GET_get GET ''search'' [] \<noteq> [] \<longrightarrow>
             icontains (GET_get GET ''search'' []) (Reef_name r) \<or>
             icontains (GET_get GET ''search'' []) (Reef_country r) \<or>
             icontains (GET_get GET ''search'' []) (Reef_description r)) \<and>
          (GET_get GET ''region'' [] \<noteq> [] \<longrightarrow> Reef_region r = GET_get GET ''region'' []) \<and>
          (GET_get GET ''health'' [] \<noteq> [] \<longrightarrow> Reef_health_status r = GET_get GET ''health'' [])}"
    unfolding s reef_rows by auto
  from l 1 2 3 show ?thesis by blast
qed

theorem reef_list_filters_witness:
  "reef_list [reef1, reef2, reef3]
     [''region'' \<mapsto> ''pacific'', ''health'' \<mapsto> ''good'', ''search'' \<mapsto> ''REEF''] new_session
     = Inr [reef1] \<and>
   Reef_region reef1 = ''pacific'' \<and> Reef_health_status reef1 = ''good'' \<and>
   ((\<exists>pre post. lower (Reef_name reef1) = pre @ lower ''REEF'' @ post) \<or>
    (\<exists>pre post. lower (Reef_country reef1) = pre @ lower ''REEF'' @ post) \<or>
    (\<exists>pre post. lower (Reef_description reef1) = pre @ lower ''REEF'' @ post))"
proof -
  let ?G = "[''region'' \<mapsto> ''pacific'', ''health'' \<mapsto> ''good'', ''search'' \<mapsto> ''REEF'']"
  have l: "reef_list [reef1, reef2, reef3] ?G new_session = Inr [reef1]"
    by code_simp
  have g: "?G ''region'' = Some ''pacific''" "?G ''health'' = Some ''good''"
    "?G ''search'' = Some ''REEF''"
    by simp_all
  from reef_list_filters[of "[reef1, reef2, reef3]" ?G new_session "''pacific''" "''good''" "''REEF''"]
  show ?thesis unfolding l g by simp
qed

text \<open>
  C10. Whatever the request parameters, every article that the article listing returns
  is a published article of the table. The detail view returns only a published article
  that matches the key of the URL; when every article matching the key is unpublished
  (or none matches) the answer is \<open>Http404\<close>.
\<close>

theorem articles_published_only:
  "(\<exists>rows. article_list table GET = Inr rows \<and>
      (\<forall>a \<in> set rows. Article_published a \<and> a \<in> set table)) \<and>
   (\<forall>a. ArticleDetailView_get_object table key = Inr a \<longrightarrow>
      Article_published a \<and> a \<in> set table \<and> Article_matches key a) \<and>
   ((\<forall>a \<in> set table. Article_matches key a \<longrightarrow> \<not> Article_published a) \<longrightarrow>
      ArticleDetailView_get_object table key = Inl Http404)"
proof -
  from article_list_ordered[of table GET] obtain rows
    where l: "article_list table GET = Inr rows"
      and s: "set rows = set (qs_rows (ArticleListView_get_queryset table GET))"
    by blast
  have 1: "\<forall>a \<in> set rows. Article_published a \<and> a \<in> set table"
    unfolding s article_rows by simp
  let ?m = "filter (Article_matches key) (filter Article_published table)"
  have d: "ArticleDetailView_get_object table key =
             (case ?m of [] \<Rightarrow> Inl Http404 | [a] \<Rightarrow> Inr a | _ \<Rightarrow> Inl MultipleObjectsReturned)"
    by (simp add: ArticleDetailView_get_object_def ArticleDetailView_get_queryset_def
        qs_filter_def Article_objects_def)
  have 2: "Article_published a \<and> a \<in> set table \<and> Article_matches key a"
    if "ArticleDetailView_get_object table key = Inr a" for a
  proof -
    from that have "?m = [a]" unfolding d by (auto split: list.splits)
    then have "a \<in> set ?m" by simp
    then show ?thesis by simp
  qed
  have 3: "ArticleDetailView_get_object table key = Inl Http404"
    if "\<forall>a \<in> set table. Article_matches key a \<longrightarrow> \<not> Article_published a"
  proof -
    from that have "?m = []" by (auto simp: filter_empty_conv)
    then show ?thesis unfolding d by simp
  qed
  from l 1 2 3 show ?thesis by blast
qed

theorem articles_published_only_witness:
  "article_list [article1, article2, article3] [''search'' \<mapsto> ''draft''] = Inr [] \<and>
   article_list [article1, article2, article3] Map.empty = Inr [article3, article1] \<and>
   Article_published article3 \<and> Article_published article1 \<and>
   \<not> Article_published article2 \<and>
   ArticleDetailView_get_object [article1, article2, article3] (BySlug ''draft-on-bleaching'')
     = Inl Http404 \<and>
   ArticleDetailView_get_object [article1, article2, article3] (ByPk 3) = Inr article3"
proof -
  let ?T = "[article1, article2, article3]"
  have l: "article_list ?T Map.empty = Inr [article3, article1]"
    by code_simp
  have l2: "article_list ?T [''search'' \<mapsto> ''draft''] = Inr []"
    by code_simp
  have u: "\<forall>a \<in> set ?T. Article_matches (BySlug ''draft-on-bleaching'') a \<longrightarrow> \<not> Article_published a"
    by (simp add: article1_def article2_def article3_def article_of_def)
  have n: "\<not> Article_published article2" by (simp add: article2_def article_of_def)
  have d: "ArticleDetailView_get_object ?T (ByPk 3) = Inr article3"
    by code_simp
  from articles_published_only[of ?T Map.empty "BySlug ''draft-on-bleaching''"] u l
  have "Article_published article3 \<and> Article_published article1"
    and "ArticleDetailView_get_object ?T (BySlug ''draft-on-bleaching'') = Inl Http404"
    by auto
  with l l2 n d show ?thesis by simp
qed


section \<open>Forms: proofs\<close>

text \<open>
  C6. A pollution report that validates is stored as one new event whose
  \<open>event_type\<close> is ''pollution'', whatever the POST data hold (an \<open>event_type\<close> entry
  included); every other field comes from the cleaned form fields, the reporter is the
  user. A report that does not validate stores nothing. A coral sighting that validates
  is stored by the form with \<open>event_type\<close> ''sighting'' and \<open>severity\<close> ''low''.
\<close>

theorem report_types_pinned:
  "(clean_pollution POST = Inr c \<longrightarrow>
      fst (PollutionReportCreateView_post clean_pollution st (Some u) POST now) =
        st\<lparr>events := events st @
              [\<lparr>Event_id = next_event_id st, Event_reef = pf_reef c,
                Event_event_type = ''pollution'', Event_title = pf_title c,
                Event_description = pf_description c, Event_severity = pf_severity c,
                Event_event_date = pf_event_date c, Event_reported_by = Some u,
                Event_created_at = now, Event_updated_at = now, Event_resolved = False,
                Event_notes = pf_notes c\<rparr>],
           next_event_id := Suc (next_event_id st),
           notices := notices st @ [''Pollution report submitted successfully. Thank you!'']\<rparr>) \<and>
   (clean_pollution POST = Inl errors \<longrightarrow>
      PollutionReportCreateView_post clean_pollution st (Some u) POST now =
        (st, FormErrors errors)) \<and>
   (clean_sighting POST = Inr c' \<longrightarrow>
      CoralSightingForm_save clean_sighting st POST now =
        (st\<lparr>events := events st @
              [\<lparr>Event_id = next_event_id st, Event_reef = sf_reef c',
                Event_event_type = ''sighting'', Event_title = sf_title c',
                Event_description = sf_description c', Event_severity = ''low'',
                Event_event_date = sf_event_date c', Event_reported_by = None,
                Event_created_at = now, Event_updated_at = now, Event_resolved = False,
                Event_notes = sf_notes c'\<rparr>],
            next_event_id := Suc (next_event_id st)\<rparr>, None))"
  by (simp add: PollutionReportCreateView_post_def PollutionReportForm_is_valid_def
      PollutionReportCreateView_form_valid_def PollutionReportForm_init_def Event_new_def
      Event_save_def CoralSightingForm_save_def CoralSightingForm_is_valid_def
      CoralSightingForm_init_def Let_def)

theorem report_types_pinned_witness:
  "example_post ''event_type'' = Some ''monitoring'' \<and>
   map Event_event_type
     (events (fst (PollutionReportCreateView_post example_clean_pollution example_events
                     (Some 7) example_post 900))) = [''pollution''] \<and>
   map (\<lambda>e. (Event_event_type e, Event_severity e))
     (events (fst (CoralSightingForm_save example_clean_sighting example_events
                     example_post 900))) = [(''sighting'', ''low'')]"
proof -
  have p: "example_clean_pollution example_post =
             Inr \<lparr>pf_reef = 1, pf_title = ''Oil sheen'', pf_description = ''Slick near the mooring'',
                  pf_severity = ''high'', pf_event_date = (2024, 3, 14), pf_notes = []\<rparr>"
    by (simp add: example_clean_pollution_def example_post_def)
  have s: "example_clean_sighting example_post =
             Inr \<lparr>sf_reef = 2, sf_title = ''Oil sheen'', sf_description = ''Healthy branching coral'',
                  sf_event_date = (2024, 3, 14), sf_notes = []\<rparr>"
    by (simp add: example_clean_sighting_def example_post_def)
  have t: "example_post ''event_type'' = Some ''monitoring''"
    by (simp add: example_post_def)
  have e: "events example_events = []" by (simp add: example_events_def)
  from report_types_pinned[where clean_pollution = example_clean_pollution
      and POST = example_post and st = example_events and u = 7 and now = 900
      and clean_sighting = example_clean_sighting, unfolded p s]
  show ?thesis using t by (simp add: e)
qed

lemma py_split_nonempty: "py_split sep s \<noteq> []"
  by (induction s) (auto split: list.splits)

lemma file_ext_named: "file_ext f \<noteq> [] \<Longrightarrow> file_name f \<noteq> []"
  by (auto simp: file_ext_def lower_def)

lemma messages_differ: "photo_but_video \<noteq> video_but_image"
  by (simp add: photo_but_video_def video_but_image_def)

lemma clean_photo:
  assumes "cd_media_type cd = Some ''photo''" "cd_file cd = Some f"
    "file_ext f \<in> set video_extensions"
  shows "ImageUploadForm_clean cd = Inl photo_but_video"
proof -
  from assms(3) have "file_ext f \<noteq> []" by (auto simp: video_extensions_def)
  then have "file_name f \<noteq> []" by (rule file_ext_named)
  with assms show ?thesis by (simp add: ImageUploadForm_clean_def)
qed

lemma clean_video:
  assumes "cd_media_type cd = Some ''video''" "cd_file cd = Some f"
    "file_ext f \<in> set image_extensions"
  shows "ImageUploadForm_clean cd = Inl video_but_image"
proof -
  from assms(3) have "file_ext f \<noteq> []" by (auto simp: image_extensions_def)
  then have "file_name f \<noteq> []" by (rule file_ext_named)
  with assms show ?thesis by (simp add: ImageUploadForm_clean_def)
qed

lemma rejected_not_saved:
  "ImageUploadForm_clean (cleaned_data form) = Inl msg \<Longrightarrow>
   msg \<in> set (ImageUploadForm_errors form) \<and> \<not> ImageUploadForm_is_valid form \<and>
   ImageUploadForm_save strftime st form uploader now = (st, Some ValueError)"
  by (simp add: ImageUploadForm_errors_def ImageUploadForm_is_valid_def ImageUploadForm_save_def)

lemma cleaned_fields:
  "cd_media_type (cleaned_data (ImageUploadForm_clean_fields validator data)) =
     field_value (clean_media_type (up_media_type data))"
  "cd_file (cleaned_data (ImageUploadForm_clean_fields validator data)) =
     field_value (clean_file validator (up_file data))"
  by (simp_all add: ImageUploadForm_clean_fields_def Let_def)

lemma declared_type_cleaned:
  "clean_media_type (Some ''photo'') = Inr ''photo''"
  "clean_media_type (Some ''video'') = Inr ''video''"
  by (simp_all add: clean_media_type_def MEDIA_TYPE_CHOICES_def)

lemma file_field_fails:
  assumes "clean_file validator (up_file data) = Inl msg"
  shows "ImageUploadForm_clean (cleaned_data (ImageUploadForm_clean_fields validator data)) =
           Inr (cleaned_data (ImageUploadForm_clean_fields validator data)) \<and>
         ImageUploadForm_errors (ImageUploadForm_clean_fields validator data) =
           field_errors (ImageUploadForm_clean_fields validator data) \<and>
         msg \<in> set (ImageUploadForm_errors (ImageUploadForm_clean_fields validator data)) \<and>
         \<not> ImageUploadForm_is_valid (ImageUploadForm_clean_fields validator data) \<and>
         ImageUploadForm_save strftime st (ImageUploadForm_clean_fields validator data) uploader now
           = (st, Some ValueError)"
proof -
  let ?form = "ImageUploadForm_clean_fields validator data"
  have none: "cd_file (cleaned_data ?form) = None"
    by (simp add: cleaned_fields assms field_value_def)
  then have c: "ImageUploadForm_clean (cleaned_data ?form) = Inr (cleaned_data ?form)"
    by (simp add: ImageUploadForm_clean_def)
  have m: "msg \<in> set (field_errors ?form)"
    by (simp add: ImageUploadForm_clean_fields_def Let_def assms field_error_def)
  have e: "ImageUploadForm_errors ?form = field_errors ?form"
    by (simp add: ImageUploadForm_errors_def c)
  from m e have nv: "\<not> ImageUploadForm_is_valid ?form"
    by (auto simp: ImageUploadForm_is_valid_def)
  then have "ImageUploadForm_save strftime st ?form uploader now = (st, Some ValueError)"
    by (simp add: ImageUploadForm_save_def)
  with c e m nv show ?thesis by simp
qed

text \<open>
  C7 (amended). For an upload whose file passes the cleaning of the file field (it has a
  name, is not empty, and the validator accepts it): with the declared type ''photo'' and
  a file extension (the text after the last dot of the name, in lower case) among mp4,
  mov, avi, mkv, webm, \<open>clean\<close> raises the photo-but-video message; with ''video'' and
  an extension among jpg, jpeg, png, gif, bmp, webp it raises the video-but-image
  message; the two messages differ. An upload whose file fails the cleaning of the file
  field is rejected with that field's message, and \<open>clean\<close> raises nothing. In all three
  cases the form is not valid and \<open>save\<close> raises and leaves the gallery as it was.
\<close>

theorem upload_type_mismatch_rejected:
  assumes "form = ImageUploadForm_clean_fields validator data"
  shows
    "(up_media_type data = Some ''photo'' \<and> clean_file validator (up_file data) = Inr f \<and>
      file_ext f \<in> set video_extensions \<longrightarrow>
        ImageUploadForm_clean (cleaned_data form) = Inl photo_but_video \<and>
        photo_but_video \<in> set (ImageUploadForm_errors form) \<and>
        \<not> ImageUploadForm_is_valid form \<and>
        ImageUploadForm_save strftime st form uploader now = (st, Some ValueError)) \<and>
     (up_media_type data = Some ''video'' \<and> clean_file validator (up_file data) = Inr f \<and>
      file_ext f \<in> set image_extensions \<longrightarrow>
        ImageUploadForm_clean (cleaned_data form) = Inl video_but_image \<and>
        video_but_image \<in> set (ImageUploadForm_errors form) \<and>
        \<not> ImageUploadForm_is_valid form \<and>
        ImageUploadForm_save strftime st form uploader now = (st, Some ValueError)) \<and>
     (clean_file validator (up_file data) = Inl msg \<longrightarrow>
        ImageUploadForm_clean (cleaned_data form) = Inr (cleaned_data form) \<and>
        ImageUploadForm_errors form = field_errors form \<and>
        msg \<in> set (ImageUploadForm_errors form) \<and>
        \<not> ImageUploadForm_is_valid form \<and>
        ImageUploadForm_save strftime st form uploader now = (st, Some ValueError)) \<and>
     photo_but_video \<noteq> video_but_image"
proof -
  have p: "ImageUploadForm_clean (cleaned_data form) = Inl photo_but_video"
    if "up_media_type data = Some ''photo''" "clean_file validator (up_file data) = Inr f"
      "file_ext f \<in> set video_extensions"
    using that unfolding assms
    by (intro clean_photo[of _ f]) (simp_all add: cleaned_fields declared_type_cleaned field_value_def)
  have v: "ImageUploadForm_clean (cleaned_data form) = Inl video_but_image"
    if "up_media_type data = Some ''video''" "clean_file validator (up_file data) = Inr f"
      "file_ext f \<in> set image_extensions"
    using that unfolding assms
    by (intro clean_video[of _ f]) (simp_all add: cleaned_fields declared_type_cleaned field_value_def)
  from p v rejected_not_saved[of form photo_but_video strftime st uploader now]
    rejected_not_saved[of form video_but_image strftime st uploader now]
    file_field_fails[of validator data msg strftime st uploader now] messages_differ
  show ?thesis unfolding assms by blast
qed

text \<open>The example uploads, cleaned.\<close>

lemma example_ext:
  "file_ext \<lparr>file_name = ''photo.mp4'', file_size = n\<rparr> = ''mp4''"
  "file_ext \<lparr>file_name = ''clip.jpg'', file_size = n\<rparr> = ''jpg''"
  "file_ext \<lparr>file_name = ''Reef.Crest.JPG'', file_size = n\<rparr> = ''jpg''"
  unfolding file_ext_def by (simp_all add: lower_def lower_char_def)

lemma example_title: "clean_title (Some ''Survey'') = Inr ''Survey''"
  by (simp add: clean_title_def strip_def is_space_def)

lemma example_form:
  "ImageUploadForm_clean_fields FileValidator (upload_of m nm n) =
     \<lparr>field_errors = field_error (clean_media_type (Some m)) @
                      field_error (clean_file FileValidator (Some \<lparr>file_name = nm, file_size = n\<rparr>)),
      cleaned_data = \<lparr>cd_reef = Some 1, cd_event = None,
                       cd_media_type = field_value (clean_media_type (Some m)),
                       cd_title = Some ''Survey'', cd_description = [],
                       cd_file = field_value (clean_file FileValidator
                                   (Some \<lparr>file_name = nm, file_size = n\<rparr>))\<rparr>\<rparr>"
  by (simp add: ImageUploadForm_clean_fields_def upload_of_def Let_def example_title
      field_error_def field_value_def strip_def)

lemma example_clean_file:
  "clean_file FileValidator (Some \<lparr>file_name = ''photo.mp4'', file_size = 2048\<rparr>)
     = Inr \<lparr>file_name = ''photo.mp4'', file_size = 2048\<rparr>"
  "clean_file FileValidator (Some \<lparr>file_name = ''clip.jpg'', file_size = 2048\<rparr>)
     = Inr \<lparr>file_name = ''clip.jpg'', file_size = 2048\<rparr>"
  "clean_file FileValidator (Some \<lparr>file_name = ''Reef.Crest.JPG'', file_size = 2048\<rparr>)
     = Inr \<lparr>file_name = ''Reef.Crest.JPG'', file_size = 2048\<rparr>"
  "clean_file FileValidator (Some \<lparr>file_name = ''photo.mp4'', file_size = 62914560\<rparr>)
     = Inl ''File too large.''"
  by (simp_all add: clean_file_def FileValidator_def example_ext)

lemmas example_upload =
  example_form example_clean_file declared_type_cleaned ImageUploadForm_errors_def
  ImageUploadForm_clean_def field_error_def field_value_def example_ext
  video_extensions_def image_extensions_def

theorem upload_type_mismatch_rejected_witness:
  "clean_file FileValidator (up_file (upload_of ''photo'' ''photo.mp4'' 2048)) =
     Inr \<lparr>file_name = ''photo.mp4'', file_size = 2048\<rparr> \<and>
   file_ext \<lparr>file_name = ''photo.mp4'', file_size = 2048\<rparr> = ''mp4'' \<and>
   ImageUploadForm_errors (ImageUploadForm_clean_fields FileValidator
       (upload_of ''photo'' ''photo.mp4'' 2048)) = [photo_but_video] \<and>
   ImageUploadForm_save example_strftime example_gallery
       (ImageUploadForm_clean_fields FileValidator (upload_of ''photo'' ''photo.mp4'' 2048))
       (Some 7) 900 = (example_gallery, Some ValueError) \<and>
   clean_file FileValidator (up_file (upload_of ''video'' ''clip.jpg'' 2048)) =
     Inr \<lparr>file_name = ''clip.jpg'', file_size = 2048\<rparr> \<and>
   file_ext \<lparr>file_name = ''clip.jpg'', file_size = 2048\<rparr> = ''jpg'' \<and>
   ImageUploadForm_errors (ImageUploadForm_clean_fields FileValidator
       (upload_of ''video'' ''clip.jpg'' 2048)) = [video_but_image] \<and>
   ImageUploadForm_save example_strftime example_gallery
       (ImageUploadForm_clean_fields FileValidator (upload_of ''video'' ''clip.jpg'' 2048))
       (Some 7) 900 = (example_gallery, Some ValueError) \<and>
   clean_file FileValidator (up_file (upload_of ''photo'' ''photo.mp4'' 62914560)) =
     Inl ''File too large.'' \<and>
   ImageUploadForm_save example_strftime example_gallery
       (ImageUploadForm_clean_fields FileValidator (upload_of ''photo'' ''photo.mp4'' 62914560))
       (Some 7) 900 = (example_gallery, Some ValueError) \<and>
   ImageUploadForm_save example_strftime example_gallery
       (ImageUploadForm_clean_fields FileValidator (upload_of ''photo'' ''Reef.Crest.JPG'' 2048))
       (Some 7) 900
     = (\<lparr>gallery = [\<lparr>ImageGallery_id = 1, ImageGallery_reef = Some 1, ImageGallery_event = None,
                      ImageGallery_media_type = ''photo'', ImageGallery_title = ''Survey'',
                      ImageGallery_description = [],
                      ImageGallery_file = ''uploads/2024/03/Reef.Crest.JPG'',
                      ImageGallery_uploaded_by = Some 7, ImageGallery_uploaded_at = 900\<rparr>],
         next_gallery_id = 2\<rparr>, None)"
proof -
  let ?p = "\<lparr>file_name = ''photo.mp4'', file_size = 2048\<rparr>"
  let ?c = "\<lparr>file_name = ''clip.jpg'', file_size = 2048\<rparr>"
  let ?dp = "upload_of ''photo'' ''photo.mp4'' 2048"
  let ?dc = "upload_of ''video'' ''clip.jpg'' 2048"
  let ?db = "upload_of ''photo'' ''photo.mp4'' 62914560"
  have xp: "file_ext ?p = ''mp4''" and xc: "file_ext ?c = ''jpg''"
    by (simp_all add: example_ext)
  have cp: "clean_file FileValidator (up_file ?dp) = Inr ?p"
    and cc: "clean_file FileValidator (up_file ?dc) = Inr ?c"
    and cb: "clean_file FileValidator (up_file ?db) = Inl ''File too large.''"
    by (simp_all add: upload_of_def example_clean_file)
  have ep: "ImageUploadForm_errors (ImageUploadForm_clean_fields FileValidator ?dp)
              = [photo_but_video]"
    and ec: "ImageUploadForm_errors (ImageUploadForm_clean_fields FileValidator ?dc)
              = [video_but_image]"
    by (simp_all add: example_upload)
  have p: "up_media_type ?dp = Some ''photo'' \<and> clean_file FileValidator (up_file ?dp) = Inr ?p \<and>
           file_ext ?p \<in> set video_extensions"
    using cp by (simp add: upload_of_def xp video_extensions_def)
  have c: "up_media_type ?dc = Some ''video'' \<and> clean_file FileValidator (up_file ?dc) = Inr ?c \<and>
           file_ext ?c \<in> set image_extensions"
    using cc by (simp add: upload_of_def xc image_extensions_def)
  have ok: "ImageUploadForm_save example_strftime example_gallery
       (ImageUploadForm_clean_fields FileValidator (upload_of ''photo'' ''Reef.Crest.JPG'' 2048))
       (Some 7) 900
     = (\<lparr>gallery = [\<lparr>ImageGallery_id = 1, ImageGallery_reef = Some 1, ImageGallery_event = None,
                      ImageGallery_media_type = ''photo'', ImageGallery_title = ''Survey'',
                      ImageGallery_description = [],
                      ImageGallery_file = ''uploads/2024/03/Reef.Crest.JPG'',
                      ImageGallery_uploaded_by = Some 7, ImageGallery_uploaded_at = 900\<rparr>],
         next_gallery_id = 2\<rparr>, None)"
    by (simp add: example_upload ImageUploadForm_save_def ImageUploadForm_is_valid_def
        example_strftime_def ImageGallery_upload_to_def example_gallery_def)
  from upload_type_mismatch_rejected[OF refl, of ?dp FileValidator ?p example_strftime
      example_gallery "Some 7" 900] p
  have 1: "ImageUploadForm_save example_strftime example_gallery
             (ImageUploadForm_clean_fields FileValidator ?dp) (Some 7) 900
           = (example_gallery, Some ValueError)"
    by blast
  from upload_type_mismatch_rejected[OF refl, of ?dc FileValidator ?c example_strftime
      example_gallery "Some 7" 900] c
  have 2: "ImageUploadForm_save example_strftime example_gallery
             (ImageUploadForm_clean_fields FileValidator ?dc) (Some 7) 900
           = (example_gallery, Some ValueError)"
    by blast
  from upload_type_mismatch_rejected[where validator = FileValidator and data = ?db
      and msg = "''File too large.''" and strftime = example_strftime and st = example_gallery
      and uploader = "Some 7" and now = 900, OF refl] cb
  have 3: "ImageUploadForm_save example_strftime example_gallery
             (ImageUploadForm_clean_fields FileValidator ?db) (Some 7) 900
           = (example_gallery, Some ValueError)"
    by blast
  from xp xc cp cc cb ep ec 1 2 3 ok show ?thesis by simp
qed

text \<open>
  A 60MB file named photo.mp4, declared a photo: the validator refuses the file for its
  size, so \<open>clean\<close> never sees it, and the form is rejected with the validator's message
  alone; the photo-but-video message is not among its errors.
\<close>

theorem oversized_upload_no_mismatch_message:
  "up_media_type (upload_of ''photo'' ''photo.mp4'' 62914560) = Some ''photo'' \<and>
   file_ext \<lparr>file_name = ''photo.mp4'', file_size = 62914560\<rparr> \<in> set video_extensions \<and>
   ImageUploadForm_errors (ImageUploadForm_clean_fields FileValidator
       (upload_of ''photo'' ''photo.mp4'' 62914560)) = [''File too large.''] \<and>
   photo_but_video \<notin> set (ImageUploadForm_errors (ImageUploadForm_clean_fields FileValidator
       (upload_of ''photo'' ''photo.mp4'' 62914560)))"
proof -
  have t: "up_media_type (upload_of ''photo'' ''photo.mp4'' 62914560) = Some ''photo''"
    by (simp add: upload_of_def)
  have x: "file_ext \<lparr>file_name = ''photo.mp4'', file_size = 62914560\<rparr> \<in> set video_extensions"
    by (simp add: example_ext video_extensions_def)
  have e: "ImageUploadForm_errors (ImageUploadForm_clean_fields FileValidator
       (upload_of ''photo'' ''photo.mp4'' 62914560)) = [''File too large.'']"
    by (simp add: example_upload)
  have n: "photo_but_video \<noteq> ''File too large.''"
    by (simp add: photo_but_video_def)
  from t x e n show ?thesis by simp
qed

section \<open>Deleting a reef: proofs\<close>

lemma Reef_delete_tables:
  "Event_table (Reef_delete reef_id db) = filter (\<lambda>e. Event_reef e \<noteq> reef_id) (Event_table db)"
  "ImageGallery_table (Reef_delete reef_id db) =
     filter (\<lambda>g. ImageGallery_reef g \<noteq> Some reef_id \<and>
                  \<not> (\<exists>e \<in> set (Event_table db).
                        Event_reef e = reef_id \<and> ImageGallery_event g = Some (Event_id e)))
       (ImageGallery_table db)"
  "ReefBookmark_table (Reef_delete reef_id db) =
     filter (\<lambda>b. ReefBookmark_reef b \<noteq> reef_id) (ReefBookmark_table db)"
  "Reef_table (Reef_delete reef_id db) = filter (\<lambda>r. Reef_id r \<noteq> reef_id) (Reef_table db)"
  by (auto simp: Reef_delete_def collect_def refers_def Event_reef_on_delete_def
      ImageGallery_event_on_delete_def ImageGallery_reef_on_delete_def
      ReefBookmark_reef_on_delete_def split: option.splits intro!: filter_cong)

text \<open>
  C9. After a reef is deleted the event table is the old one without the events of the
  reef, and the gallery is the old one without the items that were linked to the reef
  or to one of its events; the other events and gallery items stay. So no event of the
  deleted reef is left, no gallery item points to the reef or to one of its former
  events, and the reef's own row is gone.
\<close>

theorem reef_delete_cascades:
  "Event_table (Reef_delete reef_id db) =
     filter (\<lambda>e. Event_reef e \<noteq> reef_id) (Event_table db) \<and>
   ImageGallery_table (Reef_delete reef_id db) =
     filter (\<lambda>g. ImageGallery_reef g \<noteq> Some reef_id \<and>
                  \<not> (\<exists>e \<in> set (Event_table db).
                        Event_reef e = reef_id \<and> ImageGallery_event g = Some (Event_id e)))
       (ImageGallery_table db) \<and>
   (\<forall>e \<in> set (Event_table (Reef_delete reef_id db)). Event_reef e \<noteq> reef_id) \<and>
   (\<forall>g \<in> set (ImageGallery_table (Reef_delete reef_id db)).
      ImageGallery_reef g \<noteq> Some reef_id \<and>
      (\<forall>e \<in> set (Event_table db).
         Event_reef e = reef_id \<longrightarrow> ImageGallery_event g \<noteq> Some (Event_id e))) \<and>
   (\<forall>r \<in> set (Reef_table (Reef_delete reef_id db)). Reef_id r \<noteq> reef_id)"
  unfolding Reef_delete_tables by auto

theorem reef_delete_cascades_witness:
  "Reef_delete 1 example_database =
     \<lparr>Reef_table = [reef2], Event_table = [event3],
      ImageGallery_table = [gallery_of 3 (Some 2) (Some 3), gallery_of 4 None None],
      ReefBookmark_table = []\<rparr> \<and>
   Event_reef event3 \<noteq> 1 \<and>
   ImageGallery_table example_database =
     [gallery_of 1 (Some 1) None, gallery_of 2 None (Some 2), gallery_of 3 (Some 2) (Some 3),
      gallery_of 4 None None] \<and>
   Event_reef event2 = 1 \<and> Event_id event2 = 2"
proof -
  have d: "Reef_delete 1 example_database =
     \<lparr>Reef_table = [reef2], Event_table = [event3],
      ImageGallery_table = [gallery_of 3 (Some 2) (Some 3), gallery_of 4 None None],
      ReefBookmark_table = []\<rparr>"
    by code_simp
  have g: "ImageGallery_table example_database =
     [gallery_of 1 (Some 1) None, gallery_of 2 None (Some 2), gallery_of 3 (Some 2) (Some 3),
      gallery_of 4 None None]"
    by (simp add: example_database_def)
  have e2: "Event_reef event2 = 1 \<and> Event_id event2 = 2"
    by (simp add: event2_def event_of_def)
  from reef_delete_cascades[of 1 example_database]
  have "\<forall>e \<in> set (Event_table (Reef_delete 1 example_database)). Event_reef e \<noteq> 1"
    by blast
  then have "Event_reef event3 \<noteq> 1" unfolding d by simp
  with d g e2 show ?thesis by blast
qed


end
